theory Spec2Isabelle
  imports Main "HOL-Library.Char_ord" "HOL-Library.List_Lexorder" "HOL-Library.Multiset"
begin

section \<open>Strings as the plugin uses them\<close>

text \<open>
  The plugin \<^verbatim>\<open>ipalib/plugins/aci2.py\<close> works on Python text strings. They are modelled
  as \<^typ>\<open>string\<close>, a character being a code point below 256; the string methods the
  plugin calls are written out below. Case folding touches the letters A to Z. White space
  is what \<^verbatim>\<open>strip()\<close> takes off a text string in that range: the code points 9 to 13,
  28 to 32, 133 and 160.
\<close>

definition lower_char :: "char \<Rightarrow> char" where
  "lower_char c =
     (let n = (of_char c :: nat) in if 65 \<le> n \<and> n \<le> 90 then char_of (n + 32) else c)"

definition lower :: "string \<Rightarrow> string" where
  "lower s = map lower_char s"

definition isspace :: "char \<Rightarrow> bool" where
  "isspace c =
     (let n = (of_char c :: nat) in
      (9 \<le> n \<and> n \<le> 13) \<or> (28 \<le> n \<and> n \<le> 32) \<or> n = 133 \<or> n = 160)"

definition strip :: "string \<Rightarrow> string" where
  "strip s = rev (dropWhile isspace (rev (dropWhile isspace s)))"

text \<open>\<^verbatim>\<open>s.split(',')\<close>: the fields between the commas, at least one field.\<close>

fun split_comma :: "string \<Rightarrow> string list" where
  "split_comma [] = [[]]"
| "split_comma (c # cs) =
     (if c = CHR '','' then [] # split_comma cs
      else (case split_comma cs of
              [] \<Rightarrow> [[c]]
            | w # ws \<Rightarrow> (c # w) # ws))"

text \<open>\<^verbatim>\<open>','.join(xs)\<close>.\<close>

fun join_comma :: "string list \<Rightarrow> string" where
  "join_comma [] = []"
| "join_comma [x] = x"
| "join_comma (x # y # ys) = x @ CHR '','' # join_comma (y # ys)"

text \<open>\<^verbatim>\<open>s.startswith(p)\<close>.\<close>

definition startswith :: "string \<Rightarrow> string \<Rightarrow> bool" where
  "startswith s p = (take (length p) s = p)"

text \<open>\<^verbatim>\<open>s.find(t) != -1\<close>: \<open>t\<close> occurs in \<open>s\<close> as a contiguous piece.\<close>

definition find_ne :: "string \<Rightarrow> string \<Rightarrow> bool" where
  "find_ne s t = list_ex (\<lambda>i. take (length t) (drop i s) = t) [0..<Suc (length s)]"

section \<open>Permission normalizer\<close>

definition valid_permissions_values :: "string list" where
  "valid_permissions_values =
     [''read'', ''write'', ''add'', ''delete'', ''selfwrite'', ''all'']"

text \<open>
  The loop of \<^verbatim>\<open>_normalize_permissions\<close>: \<open>valid_permissions\<close> is the accumulator the
  loop appends to.
\<close>

fun normalize_loop :: "string list \<Rightarrow> string list \<Rightarrow> string list" where
  "normalize_loop [] valid_permissions = valid_permissions"
| "normalize_loop (p # ps) valid_permissions =
     (let p' = lower (strip p) in
      if p' \<in> set valid_permissions_values \<and> p' \<notin> set valid_permissions
      then normalize_loop ps (valid_permissions @ [p'])
      else normalize_loop ps valid_permissions)"

definition normalize_permissions :: "string \<Rightarrow> string" where
  "normalize_permissions permissions =
     join_comma (normalize_loop (split_comma permissions) [])"

section \<open>Errors\<close>

text \<open>The exceptions the plugin raises or lets through, as values.\<close>

datatype error =
  NotFound | DuplicateEntry | SyntaxError | KeyError | ValueError | AssertionError |
  AttributeError

text \<open>Sequencing of steps that may raise: the first error ends the computation.\<close>

definition ebind :: "error + 'a \<Rightarrow> ('a \<Rightarrow> error + 'b) \<Rightarrow> error + 'b" where
  "ebind m f = (case m of Inl err \<Rightarrow> Inl err | Inr x \<Rightarrow> f x)"

text \<open>\<^verbatim>\<open>xs.remove(a)\<close>: the first item equal to \<open>a\<close> goes; ValueError when there is none.\<close>

definition list_remove :: "'a \<Rightarrow> 'a list \<Rightarrow> error + 'a list" where
  "list_remove a xs = (if a \<in> set xs then Inr (remove1 a xs) else Inl ValueError)"

section \<open>The normalizer on a Python value\<close>

text \<open>
  \<^verbatim>\<open>_normalize_permissions\<close> is called on a Python object. On a text it returns the
  text \<^verbatim>\<open>','.join(valid_permissions)\<close>; a list has no method \<^verbatim>\<open>split\<close>, so the first
  line of the function raises AttributeError on it.
\<close>

datatype pyval = PyText string | PyList "string list"

definition normalize_permissions_call :: "pyval \<Rightarrow> error + pyval" where
  "normalize_permissions_call permissions =
     (case permissions of
        PyText s \<Rightarrow> Inr (PyText (normalize_permissions s))
      | PyList xs \<Rightarrow> Inl AttributeError)"

section \<open>The ACI class\<close>

text \<open>
  Modelled from the spec: the class \<^verbatim>\<open>ACI\<close> of \<^verbatim>\<open>ipalib/aci.py\<close>, which the plugin
  imports, is not among the sources. An ACI has a name, a list of permissions, a bind rule
  and a target rule of three optional clauses (section 3 of the specification); the fields
  below are the ones the plugin reads: \<^verbatim>\<open>a.name\<close>, \<^verbatim>\<open>a.permissions\<close>,
  \<^verbatim>\<open>a.bindrule['expression']\<close> and \<^verbatim>\<open>a.target[k]['expression']\<close> for \<open>k\<close> one of
  \<^verbatim>\<open>target\<close>, \<^verbatim>\<open>targetattr\<close>, \<^verbatim>\<open>targetfilter\<close>; a clause that is \<open>None\<close> is a key
  missing from the dictionary \<^verbatim>\<open>a.target\<close>.
\<close>

record aci =
  name :: string
  permissions :: "string list"
  bindrule_expression :: string
  target_target :: "string option"
  target_targetattr :: "string list option"
  target_targetfilter :: "string option"

text \<open>
  Modelled from the spec: the methods of the class, of which the specification fixes no
  grammar, are parameters of every operation: \<open>parse\<close> (the constructor on a string,
  \<open>None\<close> when it raises SyntaxError), \<open>blank\<close> (the constructor on \<^verbatim>\<open>None\<close>),
  \<open>str\<close> (the serialization), \<open>isequal\<close> (the structural comparison, which the plugin
  calls on an ACI, \<open>Inr\<close>, and on a raw stored string, \<open>Inl\<close>) and the four setters.
\<close>

record aci_class =
  parse :: "string \<Rightarrow> aci option"
  blank :: aci
  str :: "aci \<Rightarrow> string"
  isequal :: "aci \<Rightarrow> string + aci \<Rightarrow> bool"
  set_bindrule :: "aci \<Rightarrow> string \<Rightarrow> aci"
  set_target_attr :: "aci \<Rightarrow> string list \<Rightarrow> aci"
  set_target_filter :: "aci \<Rightarrow> string \<Rightarrow> aci"
  set_target :: "aci \<Rightarrow> string \<Rightarrow> aci"

text \<open>\<^verbatim>\<open>ACI(current)\<close>.\<close>

definition ACI :: "aci_class \<Rightarrow> string option \<Rightarrow> error + aci" where
  "ACI cls current =
     (case current of
        None \<Rightarrow> Inr (blank cls)
      | Some acistr \<Rightarrow> (case parse cls acistr of None \<Rightarrow> Inl SyntaxError | Some a \<Rightarrow> Inr a))"

section \<open>Environment and collaborators\<close>

text \<open>
  \<^verbatim>\<open>api.env\<close>: the constants the plugin reads. Modelled from the spec: \<open>taskgroup_dn\<close>
  is the distinguished name the task-group plugin gives a new task-group.
\<close>

record env =
  basedn :: string
  container_user :: string
  container_group :: string
  container_host :: string
  use_ldap2 :: bool
  taskgroup_dn :: "string \<Rightarrow> string"

definition type_map :: "env \<Rightarrow> (string \<times> string) list" where
  "type_map e =
     [(''user'', ''ldap:///uid=*,'' @ container_user e @ '','' @ basedn e),
      (''group'', ''ldap:///cn=*,'' @ container_group e @ '','' @ basedn e),
      (''host'', ''ldap:///cn=*,'' @ container_host e @ '','' @ basedn e)]"

text \<open>
  Modelled from the spec: the directory behind the plugin (section 6). \<open>base_entry\<close> is
  the attribute map of the entry at the base DN, the only entry the plugin reads and
  writes; \<open>taskgroups\<close> and \<open>groups\<close> are the lookup service, from a name to the
  distinguished name (and, for a task-group, its description).
\<close>

record directory =
  base_entry :: "string \<rightharpoonup> string list"
  taskgroups :: "string \<rightharpoonup> string \<times> string"
  groups :: "string \<rightharpoonup> string"

text \<open>
  Modelled from the spec: \<^verbatim>\<open>get_entry(dn, attributes) -> (dn, attribute_map)\<close> on the base
  DN gives the requested attributes of the entry; \<^verbatim>\<open>update_entry(dn, attribute_map)\<close>
  stores the given attributes.
\<close>

definition get_entry :: "directory \<Rightarrow> string list \<Rightarrow> (string \<rightharpoonup> string list)" where
  "get_entry d attrs_list = (\<lambda>k. if k \<in> set attrs_list then base_entry d k else None)"

definition update_entry :: "directory \<Rightarrow> (string \<rightharpoonup> string list) \<Rightarrow> directory" where
  "update_entry d entry_attrs = d\<lparr>base_entry := base_entry d ++ entry_attrs\<rparr>"

text \<open>
  Modelled from the spec: \<^verbatim>\<open>show(name) -> (dn, attrs)\<close> fails with NotFound when absent;
  \<^verbatim>\<open>create(name, description) -> (dn, attrs)\<close>, for task-groups only.
\<close>

definition taskgroup2_show :: "directory \<Rightarrow> string \<Rightarrow> error + string" where
  "taskgroup2_show d cn =
     (case taskgroups d cn of None \<Rightarrow> Inl NotFound | Some (dn, description) \<Rightarrow> Inr dn)"

definition taskgroup2_create ::
  "env \<Rightarrow> directory \<Rightarrow> string \<Rightarrow> string \<Rightarrow> string \<times> directory" where
  "taskgroup2_create e d cn description =
     (taskgroup_dn e cn,
      d\<lparr>taskgroups := (taskgroups d)(cn \<mapsto> (taskgroup_dn e cn, description))\<rparr>)"

definition group2_show :: "directory \<Rightarrow> string \<Rightarrow> error + string" where
  "group2_show d cn = (case groups d cn of None \<Rightarrow> Inl NotFound | Some dn \<Rightarrow> Inr dn)"

section \<open>Request parameters\<close>

text \<open>
  The keyword arguments \<^verbatim>\<open>kw\<close> of a command: a key is present (\<open>Some\<close>) or absent.
\<close>

record kw =
  kw_aciname :: "string option"
  kw_taskgroup :: "string option"
  kw_permissions :: "string list option"
  kw_attrs :: "string list option"
  kw_type :: "string option"
  kw_memberof :: "string option"
  kw_filter :: "string option"
  kw_subtree :: "string option"
  kw_targetgroup :: "string option"

section \<open>Building an ACI from a request\<close>

text \<open>
  The \<^verbatim>\<open>try\<close> block of \<^verbatim>\<open>_make_aci\<close>: the DN of the task-group, which is created when
  the lookup raises NotFound. The directory is returned with the result, also with an
  error.
\<close>

definition resolve_taskgroup ::
  "env \<Rightarrow> directory \<Rightarrow> string \<Rightarrow> kw \<Rightarrow> (error + string) \<times> directory" where
  "resolve_taskgroup e d aciname k =
     (case kw_taskgroup k of
        None \<Rightarrow> (Inl KeyError, d)
      | Some tg \<Rightarrow>
          (case taskgroup2_show d tg of
             Inr dn \<Rightarrow> (Inr dn, d)
           | Inl err \<Rightarrow>
               if err = NotFound
               then (case taskgroup2_create e d tg aciname of (dn, d') \<Rightarrow> (Inr dn, d'))
               else (Inl err, d)))"

text \<open>The blocks \<^verbatim>\<open>if 'attrs' in kw:\<close> to \<^verbatim>\<open>if 'subtree' in kw:\<close>, in their order.\<close>

definition apply_attrs :: "aci_class \<Rightarrow> kw \<Rightarrow> aci \<Rightarrow> aci" where
  "apply_attrs cls k a =
     (case kw_attrs k of None \<Rightarrow> a | Some v \<Rightarrow> set_target_attr cls a v)"

definition apply_memberof :: "aci_class \<Rightarrow> directory \<Rightarrow> kw \<Rightarrow> aci \<Rightarrow> error + aci" where
  "apply_memberof cls d k a =
     (case kw_memberof k of
        None \<Rightarrow> Inr a
      | Some m \<Rightarrow>
          (case group2_show d m of
             Inl err \<Rightarrow> Inl err
           | Inr dn \<Rightarrow> Inr (set_target_filter cls a (''memberOf='' @ dn))))"

definition apply_filter :: "aci_class \<Rightarrow> kw \<Rightarrow> aci \<Rightarrow> aci" where
  "apply_filter cls k a =
     (case kw_filter k of None \<Rightarrow> a | Some v \<Rightarrow> set_target_filter cls a v)"

definition apply_type :: "aci_class \<Rightarrow> env \<Rightarrow> kw \<Rightarrow> aci \<Rightarrow> error + aci" where
  "apply_type cls e k a =
     (case kw_type k of
        None \<Rightarrow> Inr a
      | Some t \<Rightarrow>
          (case map_of (type_map e) t of
             None \<Rightarrow> Inl KeyError
           | Some target \<Rightarrow> Inr (set_target cls a target)))"

definition apply_targetgroup :: "aci_class \<Rightarrow> directory \<Rightarrow> kw \<Rightarrow> aci \<Rightarrow> error + aci" where
  "apply_targetgroup cls d k a =
     (case kw_targetgroup k of
        None \<Rightarrow> Inr a
      | Some g \<Rightarrow>
          (case group2_show d g of
             Inl err \<Rightarrow> Inl err
           | Inr dn \<Rightarrow> Inr (set_target cls a (''ldap:///'' @ dn))))"

definition apply_subtree :: "aci_class \<Rightarrow> kw \<Rightarrow> aci \<Rightarrow> aci" where
  "apply_subtree cls k a =
     (case kw_subtree k of
        None \<Rightarrow> a
      | Some target \<Rightarrow>
          set_target cls a
            (if \<not> startswith target ''ldap:///'' then ''ldap:///'' @ target else target))"

text \<open>The bind rule \<^verbatim>\<open>'groupdn = "ldap:///%s"' % dn\<close>.\<close>

definition groupdn_rule :: "string \<Rightarrow> string" where
  "groupdn_rule dn = ''groupdn = '' @ [CHR 0x22] @ ''ldap:///'' @ dn @ [CHR 0x22]"

text \<open>\<^verbatim>\<open>_make_aci\<close> after the task-group is resolved to \<open>dn\<close>.\<close>

definition make_aci_body ::
  "aci_class \<Rightarrow> env \<Rightarrow> directory \<Rightarrow> string option \<Rightarrow> string \<Rightarrow> kw \<Rightarrow> string \<Rightarrow> error + aci" where
  "make_aci_body cls e d current aciname k dn =
     ebind (ACI cls current) (\<lambda>a.
       (case kw_permissions k of
          None \<Rightarrow> Inl KeyError
        | Some ps \<Rightarrow>
            ebind (apply_memberof cls d k
                    (apply_attrs cls k
                      (set_bindrule cls (a\<lparr>name := aciname, permissions := ps\<rparr>)
                        (groupdn_rule dn)))) (\<lambda>a.
            ebind (apply_type cls e k (apply_filter cls k a)) (\<lambda>a.
            ebind (apply_targetgroup cls d k a) (\<lambda>a.
            Inr (apply_subtree cls k a))))))"

definition make_aci ::
  "aci_class \<Rightarrow> env \<Rightarrow> directory \<Rightarrow> string option \<Rightarrow> string \<Rightarrow> kw \<Rightarrow> (error + aci) \<times> directory" where
  "make_aci cls e d current aciname k =
     (case resolve_taskgroup e d aciname k of
        (Inl err, d') \<Rightarrow> (Inl err, d')
      | (Inr dn, d') \<Rightarrow> (make_aci_body cls e d' current aciname k dn, d'))"

section \<open>Decoding the stored strings, lookup by name\<close>

text \<open>The loop of \<^verbatim>\<open>_convert_strings_to_acis\<close>, with the list \<open>acis\<close> it appends to.\<close>

fun convert_loop :: "aci_class \<Rightarrow> string list \<Rightarrow> aci list \<Rightarrow> error + aci list" where
  "convert_loop cls [] acis = Inr acis"
| "convert_loop cls (a # acistrs) acis =
     (case ACI cls (Some a) of
        Inr x \<Rightarrow> convert_loop cls acistrs (acis @ [x])
      | Inl err \<Rightarrow> if err = SyntaxError then convert_loop cls acistrs acis else Inl err)"

definition convert_strings_to_acis :: "aci_class \<Rightarrow> string list \<Rightarrow> error + aci list" where
  "convert_strings_to_acis cls acistrs = convert_loop cls acistrs []"

fun find_aci_by_name :: "aci list \<Rightarrow> string \<Rightarrow> error + aci" where
  "find_aci_by_name [] aciname = Inl NotFound"
| "find_aci_by_name (a # acis) aciname =
     (if lower (name a) = lower aciname then Inr a else find_aci_by_name acis aciname)"

text \<open>\<^verbatim>\<open>entry_attrs.get('aci', [])\<close>.\<close>

definition get_aci :: "(string \<rightharpoonup> string list) \<Rightarrow> string list" where
  "get_aci entry_attrs = (case entry_attrs ''aci'' of None \<Rightarrow> [] | Some v \<Rightarrow> v)"

section \<open>The commands\<close>

text \<open>
  A command that writes returns its result, or the error it raised, with the directory
  as it is then: what was written before an error stays written.
\<close>

subsection \<open>Create\<close>

definition aci2_create_execute ::
  "aci_class \<Rightarrow> env \<Rightarrow> directory \<Rightarrow> string \<Rightarrow> kw \<Rightarrow> (error + string) \<times> directory" where
  "aci2_create_execute cls e d aciname k =
     (if kw_aciname k \<noteq> None then (Inl AssertionError, d)
      else if \<not> use_ldap2 e then (Inl AssertionError, d)
      else
        (case make_aci cls e d None aciname k of
           (Inl err, d') \<Rightarrow> (Inl err, d')
         | (Inr newaci, d') \<Rightarrow>
             (let entry_attrs = get_entry d' [''aci''] in
              case convert_strings_to_acis cls (get_aci entry_attrs) of
                Inl err \<Rightarrow> (Inl err, d')
              | Inr acis \<Rightarrow>
                  if list_ex (\<lambda>a. isequal cls a (Inr newaci)) acis
                  then (Inl DuplicateEntry, d')
                  else
                    (let newaci_str = str cls newaci in
                     case entry_attrs ''acis'' of
                       None \<Rightarrow> (Inl KeyError, d')
                     | Some v \<Rightarrow>
                         (Inr newaci_str,
                          update_entry d' (entry_attrs(''acis'' \<mapsto> v @ [newaci_str])))))))"

subsection \<open>Delete\<close>

text \<open>
  The loop \<^verbatim>\<open>for a in acistrs: if aci.isequal(a): acistrs.remove(a); break\<close>: the first
  argument is what is left to visit, the second the whole list.
\<close>

fun delete_loop :: "aci_class \<Rightarrow> aci \<Rightarrow> string list \<Rightarrow> string list \<Rightarrow> error + string list" where
  "delete_loop cls found [] acistrs = Inr acistrs"
| "delete_loop cls found (a # rest) acistrs =
     (if isequal cls found (Inl a) then list_remove a acistrs
      else delete_loop cls found rest acistrs)"

definition aci2_delete_execute ::
  "aci_class \<Rightarrow> env \<Rightarrow> directory \<Rightarrow> string \<Rightarrow> kw \<Rightarrow> (error + bool) \<times> directory" where
  "aci2_delete_execute cls e d aciname k =
     (if kw_aciname k \<noteq> None then (Inl AssertionError, d)
      else if \<not> use_ldap2 e then (Inl AssertionError, d)
      else
        (let entry_attrs = get_entry d [''aci''];
             acistrs = get_aci entry_attrs in
         case convert_strings_to_acis cls acistrs of
           Inl err \<Rightarrow> (Inl err, d)
         | Inr acis \<Rightarrow>
             (case find_aci_by_name acis aciname of
                Inl err \<Rightarrow> (Inl err, d)
              | Inr found \<Rightarrow>
                  (case delete_loop cls found acistrs acistrs of
                     Inl err \<Rightarrow> (Inl err, d)
                   | Inr acistrs' \<Rightarrow>
                       (Inr True, update_entry d (entry_attrs(''aci'' \<mapsto> acistrs')))))))"

subsection \<open>Modify\<close>

text \<open>
  \<^verbatim>\<open>kw.setdefault(key, value)\<close> on each key, and the lines of \<^verbatim>\<open>aci2_mod.execute\<close> up to
  the two calls: the existing ACI is found and the request is completed from it. Python
  evaluates the value before \<^verbatim>\<open>setdefault\<close> looks at the key, so a clause missing from
  \<^verbatim>\<open>aci.target\<close> raises KeyError whether the key is given or not.
\<close>

definition setdefault :: "'a option \<Rightarrow> 'a \<Rightarrow> 'a option" where
  "setdefault v dflt = (case v of None \<Rightarrow> Some dflt | Some x \<Rightarrow> Some x)"

definition mod_merge :: "aci_class \<Rightarrow> env \<Rightarrow> directory \<Rightarrow> string \<Rightarrow> kw \<Rightarrow> error + kw" where
  "mod_merge cls e d aciname k =
     (if \<not> use_ldap2 e then Inl AssertionError
      else
        ebind (convert_strings_to_acis cls (get_aci (get_entry d [''aci'']))) (\<lambda>acis.
        ebind (find_aci_by_name acis aciname) (\<lambda>found.
          (let k1 = k\<lparr>kw_aciname := setdefault (kw_aciname k) (name found),
                      kw_taskgroup := setdefault (kw_taskgroup k) (bindrule_expression found),
                      kw_permissions := setdefault (kw_permissions k) (permissions found)\<rparr>
           in
           case target_targetattr found of
             None \<Rightarrow> Inl KeyError
           | Some ta \<Rightarrow>
               ebind
                 (let k2 = k1\<lparr>kw_attrs := setdefault (kw_attrs k1) ta\<rparr> in
                  if kw_type k2 = None \<and> kw_targetgroup k2 = None \<and> kw_subtree k2 = None
                  then (case target_target found of
                          None \<Rightarrow> Inl KeyError
                        | Some t \<Rightarrow> Inr (k2\<lparr>kw_subtree := Some t\<rparr>))
                  else Inr k2) (\<lambda>k3.
                 if kw_memberof k3 = None \<and> kw_filter k3 = None
                 then (case target_targetfilter found of
                         None \<Rightarrow> Inl KeyError
                       | Some f \<Rightarrow> Inr (k3\<lparr>kw_filter := Some f\<rparr>))
                 else Inr k3)))))"

text \<open>
  The two calls go through the command registry, \<^verbatim>\<open>self.api.Command['aci2_delete']\<close> and
  \<^verbatim>\<open>self.api.Command['aci2_create']\<close>, which is the framework's and not among the
  sources: the two registered commands are parameters.
\<close>

record commands =
  cmd_aci2_delete :: "directory \<Rightarrow> string \<Rightarrow> (error + bool) \<times> directory"
  cmd_aci2_create :: "directory \<Rightarrow> string \<Rightarrow> kw \<Rightarrow> (error + string) \<times> directory"

definition aci2_mod_execute ::
  "aci_class \<Rightarrow> env \<Rightarrow> commands \<Rightarrow> directory \<Rightarrow> string \<Rightarrow> kw \<Rightarrow> (error + string) \<times> directory" where
  "aci2_mod_execute cls e c d aciname k =
     (case mod_merge cls e d aciname k of
        Inl err \<Rightarrow> (Inl err, d)
      | Inr k' \<Rightarrow>
          (case cmd_aci2_delete c d aciname of
             (Inl err, d') \<Rightarrow> (Inl err, d')
           | (Inr ok, d') \<Rightarrow> cmd_aci2_create c d' aciname k'))"

subsection \<open>Find\<close>

text \<open>
  The lists \<^verbatim>\<open>acis\<close> and \<^verbatim>\<open>results\<close> hold objects. The class defines no comparison of
  its own that the plugin relies on (it calls \<^verbatim>\<open>isequal\<close> where it wants the structural
  one), so \<^verbatim>\<open>a not in results\<close> and \<^verbatim>\<open>results.remove(a)\<close> go by the identity of the
  object: an object is the pair of its position in the decoded list and its value.
\<close>

type_synonym obj = "nat \<times> aci"

definition objects :: "aci list \<Rightarrow> obj list" where
  "objects acis = zip [0..<length acis] acis"

text \<open>The loop of the \<^verbatim>\<open>term\<close> pass; the term is already in lower case.\<close>

fun term_loop :: "string \<Rightarrow> obj list \<Rightarrow> obj list \<Rightarrow> obj list" where
  "term_loop t [] results = results"
| "term_loop t (a # acis) results =
     (if find_ne (lower (name (snd a))) t \<and> a \<notin> set results
      then term_loop t acis (results @ [a])
      else term_loop t acis results)"

text \<open>
  The loop of every other pass, \<^verbatim>\<open>for a in acis: if <test>: results.remove(a)\<close>; the test
  may raise.
\<close>

fun remove_loop :: "(obj \<Rightarrow> error + bool) \<Rightarrow> obj list \<Rightarrow> obj list \<Rightarrow> error + obj list" where
  "remove_loop test [] results = Inr results"
| "remove_loop test (a # acis) results =
     (case test a of
        Inl err \<Rightarrow> Inl err
      | Inr b \<Rightarrow>
          if b then (case list_remove a results of
                       Inl err \<Rightarrow> Inl err
                     | Inr results' \<Rightarrow> remove_loop test acis results')
          else remove_loop test acis results)"

text \<open>The state of a pass is the pair of \<^verbatim>\<open>results\<close> and \<^verbatim>\<open>acis\<close>.\<close>

definition pass_term :: "string \<Rightarrow> obj list \<Rightarrow> obj list \<times> obj list" where
  "pass_term t acis =
     (if t \<noteq> [] then (let results = term_loop (lower t) acis [] in (results, results))
      else (acis, acis))"

definition pass_aciname :: "kw \<Rightarrow> obj list \<times> obj list \<Rightarrow> error + obj list \<times> obj list" where
  "pass_aciname k s =
     (case kw_aciname k of
        None \<Rightarrow> Inr s
      | Some n \<Rightarrow>
          ebind (remove_loop (\<lambda>a. Inr (name (snd a) \<noteq> n)) (snd s) (fst s))
            (\<lambda>results. Inr (results, results)))"

definition attrs_test :: "string list \<Rightarrow> obj \<Rightarrow> error + bool" where
  "attrs_test v a =
     (case target_targetattr (snd a) of
        None \<Rightarrow> Inl KeyError
      | Some ts \<Rightarrow> Inr (sort (map lower ts) \<noteq> sort (map lower v)))"

definition pass_attrs :: "kw \<Rightarrow> obj list \<times> obj list \<Rightarrow> error + obj list \<times> obj list" where
  "pass_attrs k s =
     (case kw_attrs k of
        None \<Rightarrow> Inr s
      | Some v \<Rightarrow>
          ebind (remove_loop (attrs_test v) (snd s) (fst s))
            (\<lambda>results. Inr (results, results)))"

definition pass_taskgroup ::
  "directory \<Rightarrow> kw \<Rightarrow> obj list \<times> obj list \<Rightarrow> error + obj list \<times> obj list" where
  "pass_taskgroup d k s =
     (case kw_taskgroup k of
        None \<Rightarrow> Inr s
      | Some tg \<Rightarrow>
          (case taskgroup2_show d tg of
             Inl err \<Rightarrow> if err = NotFound then Inr s else Inl err
           | Inr dn \<Rightarrow>
               ebind (remove_loop (\<lambda>a. Inr (bindrule_expression (snd a) \<noteq> ''ldap:///'' @ dn))
                        (snd s) (fst s))
                 (\<lambda>results. Inr (results, results))))"

text \<open>
  In the permissions pass \<^verbatim>\<open>acis = list(results)\<close> stands inside the loop: the loop goes
  on over the list it started with, and \<^verbatim>\<open>acis\<close> is rebound only when the loop body
  ran.
\<close>

definition pass_permissions :: "kw \<Rightarrow> obj list \<times> obj list \<Rightarrow> error + obj list \<times> obj list" where
  "pass_permissions k s =
     (case kw_permissions k of
        None \<Rightarrow> Inr s
      | Some ps \<Rightarrow>
          ebind (remove_loop (\<lambda>a. Inr (sort (permissions (snd a)) \<noteq> sort ps)) (snd s) (fst s))
            (\<lambda>results. Inr (results, if snd s = [] then snd s else results)))"

definition memberof_test :: "string \<Rightarrow> obj \<Rightarrow> error + bool" where
  "memberof_test memberof_filter a =
     (case target_targetfilter (snd a) of
        Some f \<Rightarrow> Inr (f \<noteq> memberof_filter)
      | None \<Rightarrow> Inr True)"

text \<open>The memberof pass leaves \<^verbatim>\<open>acis\<close> as it is: the assignment is commented out.\<close>

definition pass_memberof ::
  "directory \<Rightarrow> kw \<Rightarrow> obj list \<times> obj list \<Rightarrow> error + obj list \<times> obj list" where
  "pass_memberof d k s =
     (case kw_memberof k of
        None \<Rightarrow> Inr s
      | Some m \<Rightarrow>
          (case group2_show d m of
             Inl err \<Rightarrow> if err = NotFound then Inr s else Inl err
           | Inr dn \<Rightarrow>
               ebind (remove_loop (memberof_test (''(memberOf='' @ dn @ '')'')) (snd s) (fst s))
                 (\<lambda>results. Inr (results, snd s))))"

text \<open>\<^verbatim>\<open>aci2_find.execute\<close> up to the list \<^verbatim>\<open>results\<close>, and with the serialization.\<close>

definition find_results ::
  "aci_class \<Rightarrow> env \<Rightarrow> directory \<Rightarrow> string \<Rightarrow> kw \<Rightarrow> error + obj list" where
  "find_results cls e d t k =
     (if \<not> use_ldap2 e then Inl AssertionError
      else
        ebind (convert_strings_to_acis cls (get_aci (get_entry d [''aci'']))) (\<lambda>acis.
        ebind (pass_aciname k (pass_term t (objects acis))) (\<lambda>s.
        ebind (pass_attrs k s) (\<lambda>s.
        ebind (pass_taskgroup d k s) (\<lambda>s.
        ebind (pass_permissions k s) (\<lambda>s.
        ebind (pass_memberof d k s) (\<lambda>s.
        Inr (fst s))))))))"

definition aci2_find_execute ::
  "aci_class \<Rightarrow> env \<Rightarrow> directory \<Rightarrow> string \<Rightarrow> kw \<Rightarrow> error + string list" where
  "aci2_find_execute cls e d t k =
     ebind (find_results cls e d t k) (\<lambda>results. Inr (map (\<lambda>a. str cls (snd a)) results))"

subsection \<open>Show\<close>

definition aci2_show_execute ::
  "aci_class \<Rightarrow> env \<Rightarrow> directory \<Rightarrow> string \<Rightarrow> kw \<Rightarrow> error + string" where
  "aci2_show_execute cls e d aciname k =
     (if \<not> use_ldap2 e then Inl AssertionError
      else
        ebind (convert_strings_to_acis cls (get_aci (get_entry d [''aci'']))) (\<lambda>acis.
        ebind (find_aci_by_name acis aciname) (\<lambda>a. Inr (str cls a))))"

section \<open>What each search criterion keeps\<close>

text \<open>
  The criteria of \<^verbatim>\<open>aci2_find\<close> as predicates on an object, in the words of the
  specification (section 4.6); the loops above are compared with them below.
\<close>

definition term_ok :: "string \<Rightarrow> obj \<Rightarrow> bool" where
  "term_ok t a = (t = [] \<or> find_ne (lower (name (snd a))) (lower t))"

definition aciname_ok :: "kw \<Rightarrow> obj \<Rightarrow> bool" where
  "aciname_ok k a = (case kw_aciname k of None \<Rightarrow> True | Some n \<Rightarrow> name (snd a) = n)"

definition attrs_ok :: "kw \<Rightarrow> obj \<Rightarrow> bool" where
  "attrs_ok k a =
     (case kw_attrs k of
        None \<Rightarrow> True
      | Some v \<Rightarrow>
          (case target_targetattr (snd a) of
             None \<Rightarrow> False
           | Some ts \<Rightarrow> sort (map lower ts) = sort (map lower v)))"

definition taskgroup_ok :: "directory \<Rightarrow> kw \<Rightarrow> obj \<Rightarrow> bool" where
  "taskgroup_ok d k a =
     (case kw_taskgroup k of
        None \<Rightarrow> True
      | Some tg \<Rightarrow>
          (case taskgroup2_show d tg of
             Inl err \<Rightarrow> True
           | Inr dn \<Rightarrow> bindrule_expression (snd a) = ''ldap:///'' @ dn))"

definition permissions_ok :: "kw \<Rightarrow> obj \<Rightarrow> bool" where
  "permissions_ok k a =
     (case kw_permissions k of None \<Rightarrow> True | Some ps \<Rightarrow> sort (permissions (snd a)) = sort ps)"

definition memberof_ok :: "directory \<Rightarrow> kw \<Rightarrow> obj \<Rightarrow> bool" where
  "memberof_ok d k a =
     (case kw_memberof k of
        None \<Rightarrow> True
      | Some m \<Rightarrow>
          (case group2_show d m of
             Inl err \<Rightarrow> True
           | Inr dn \<Rightarrow> target_targetfilter (snd a) = Some (''(memberOf='' @ dn @ '')'')))"

text \<open>The objects left after the \<^verbatim>\<open>term\<close> and \<^verbatim>\<open>aciname\<close> passes.\<close>

definition find_front :: "aci_class \<Rightarrow> directory \<Rightarrow> string \<Rightarrow> kw \<Rightarrow> obj list" where
  "find_front cls d t k =
     filter (aciname_ok k) (filter (term_ok t)
       (objects (List.map_filter (parse cls) (get_aci (base_entry d)))))"

section \<open>A sample directory\<close>

text \<open>
  Values on which the statements below are evaluated: an environment, two ACIs, an
  instance of the class whose constructor reads two stored strings and rejects every
  other, and a directory whose \<^verbatim>\<open>aci\<close> attribute holds a malformed string and the two
  ACIs.
\<close>

definition sample_env :: env where
  "sample_env =
     \<lparr>basedn = ''dc=example'', container_user = ''cn=users'', container_group = ''cn=groups'',
      container_host = ''cn=computers'', use_ldap2 = True,
      taskgroup_dn = (\<lambda>cn. ''cn='' @ cn @ '',cn=taskgroups,dc=example'')\<rparr>"

definition aci_admin :: aci where
  "aci_admin =
     \<lparr>name = ''Admin'', permissions = [''read'', ''write''],
      bindrule_expression = ''ldap:///cn=g1,cn=taskgroups,dc=example'',
      target_target = None, target_targetattr = None, target_targetfilter = None\<rparr>"

definition aci_helpdesk :: aci where
  "aci_helpdesk =
     \<lparr>name = ''helpdesk'', permissions = [''read'', ''write'', ''add''],
      bindrule_expression = ''ldap:///cn=g2,cn=taskgroups,dc=example'',
      target_target = Some ''ldap:///cn=*,cn=groups,dc=example'',
      target_targetattr = Some [''cn'', ''sn''],
      target_targetfilter = Some ''(memberOf=cn=m1,cn=groups,dc=example)''\<rparr>"

definition sample_equal :: "aci \<Rightarrow> aci \<Rightarrow> bool" where
  "sample_equal a b =
     (lower (name a) = lower (name b) \<and> set (permissions a) = set (permissions b) \<and>
      bindrule_expression a = bindrule_expression b \<and> target_target a = target_target b \<and>
      target_targetattr a = target_targetattr b \<and>
      target_targetfilter a = target_targetfilter b)"

definition sample_parse :: "string \<Rightarrow> aci option" where
  "sample_parse = map_of [(''ACI Admin'', aci_admin), (''ACI helpdesk'', aci_helpdesk)]"

definition sample_cls :: aci_class where
  "sample_cls =
     \<lparr>parse = sample_parse,
      blank = \<lparr>name = [], permissions = [''write''], bindrule_expression = [],
               target_target = None, target_targetattr = None, target_targetfilter = None\<rparr>,
      str = (\<lambda>a. ''ACI '' @ name a),
      isequal = (\<lambda>a b. case b of
                   Inl s \<Rightarrow> (case sample_parse s of None \<Rightarrow> False | Some b' \<Rightarrow> sample_equal a b')
                 | Inr b' \<Rightarrow> sample_equal a b'),
      set_bindrule = (\<lambda>a v. a\<lparr>bindrule_expression := v\<rparr>),
      set_target_attr = (\<lambda>a v. a\<lparr>target_targetattr := Some v\<rparr>),
      set_target_filter = (\<lambda>a v. a\<lparr>target_targetfilter := Some v\<rparr>),
      set_target = (\<lambda>a v. a\<lparr>target_target := Some v\<rparr>)\<rparr>"

definition sample_directory :: directory where
  "sample_directory =
     \<lparr>base_entry = [''aci'' \<mapsto> [''not an ACI'', ''ACI Admin'', ''ACI helpdesk'']],
      taskgroups = [''g1'' \<mapsto> (''cn=g1,cn=taskgroups,dc=example'', ''first'')],
      groups = [''m1'' \<mapsto> ''cn=m1,cn=groups,dc=example'']\<rparr>"

definition no_kw :: kw where
  "no_kw =
     \<lparr>kw_aciname = None, kw_taskgroup = None, kw_permissions = None, kw_attrs = None,
      kw_type = None, kw_memberof = None, kw_filter = None, kw_subtree = None,
      kw_targetgroup = None\<rparr>"

section \<open>The directory without its malformed strings\<close>

text \<open>
  The directory in which the \<^verbatim>\<open>aci\<close> attribute keeps only the strings the constructor
  accepts; the commands are compared on the two directories below.
\<close>

definition drop_malformed :: "aci_class \<Rightarrow> directory \<Rightarrow> directory" where
  "drop_malformed cls d =
     d\<lparr>base_entry := (base_entry d)(''aci'' \<mapsto>
          filter (\<lambda>s. parse cls s \<noteq> None) (get_aci (base_entry d)))\<rparr>"

section \<open>Sample requests\<close>

text \<open>Requests on the sample directory: a new task-group, and an existing one.\<close>

definition plain_kw :: kw where
  "plain_kw = no_kw\<lparr>kw_taskgroup := Some ''newtg'', kw_permissions := Some [''read'']\<rparr>"

definition new_kw :: kw where
  "new_kw = no_kw\<lparr>kw_taskgroup := Some ''g1'', kw_permissions := Some [''read'']\<rparr>"

section \<open>Sample commands\<close>

text \<open>
  The registry that runs the two commands of this plugin, and a request that supplies
  \<^verbatim>\<open>attrs\<close>, \<^verbatim>\<open>filter\<close> and \<^verbatim>\<open>subtree\<close>.
\<close>

definition sample_commands :: commands where
  "sample_commands =
     \<lparr>cmd_aci2_delete = (\<lambda>d aciname. aci2_delete_execute sample_cls sample_env d aciname no_kw),
      cmd_aci2_create = (\<lambda>d aciname k. aci2_create_execute sample_cls sample_env d aciname k)\<rparr>"

definition full_kw :: kw where
  "full_kw = no_kw\<lparr>kw_attrs := Some [''cn''], kw_filter := Some ''(cn=*)'',
     kw_subtree := Some ''dc=example''\<rparr>"

section \<open>A sample class that reads the bind rule\<close>

text \<open>
  The sample class with a \<^verbatim>\<open>set_bindrule\<close> that keeps, as the expression, what stands
  between the quotes of \<^verbatim>\<open>groupdn = "..."\<close>, and a request with target qualifiers.
\<close>

definition sample_cls_rule :: aci_class where
  "sample_cls_rule =
     sample_cls\<lparr>set_bindrule := (\<lambda>a v. a\<lparr>bindrule_expression := butlast (drop 11 v)\<rparr>)\<rparr>"

definition qualified_kw :: kw where
  "qualified_kw = plain_kw\<lparr>kw_attrs := Some [''cn''], kw_memberof := Some ''m1'',
     kw_subtree := Some ''dc=example''\<rparr>"

section \<open>Facts about the string helpers\<close>

lemma split_comma_nonempty: "split_comma s \<noteq> []"
  by (induction s) (auto split: list.splits)

lemma split_comma_no_comma: "CHR '','' \<notin> set v \<Longrightarrow> split_comma v = [v]"
  by (induction v) auto

lemma split_comma_append:
  "CHR '','' \<notin> set v \<Longrightarrow> split_comma (v @ CHR '','' # r) = v # split_comma r"
  by (induction v) auto

lemma split_join:
  "vs \<noteq> [] \<Longrightarrow> (\<And>v. v \<in> set vs \<Longrightarrow> CHR '','' \<notin> set v) \<Longrightarrow>
   split_comma (join_comma vs) = vs"
proof (induction vs rule: join_comma.induct)
  case 1
  then show ?case by simp
next
  case (2 x)
  then show ?case by (simp add: split_comma_no_comma)
next
  case (3 x y ys)
  then show ?case by (simp add: split_comma_append)
qed

section \<open>Facts about the permission normalizer\<close>

lemma valid_fixed:
  "v \<in> set valid_permissions_values \<Longrightarrow> lower (strip v) = v \<and> CHR '','' \<notin> set v"
  unfolding valid_permissions_values_def
  by (auto simp: lower_def strip_def isspace_def lower_char_def)

lemma remdups_snoc: "remdups (ys @ [x]) = filter (\<lambda>y. y \<noteq> x) (remdups ys) @ [x]"
  by (induction ys) auto

lemma normalize_loop_char:
  "normalize_loop ps acc =
     acc @ rev (remdups (rev (filter (\<lambda>t. t \<notin> set acc)
       (filter (\<lambda>t. t \<in> set valid_permissions_values) (map (\<lambda>p. lower (strip p)) ps)))))"
proof (induction ps arbitrary: acc)
  case Nil
  then show ?case by simp
next
  case (Cons p ps)
  show ?case
    by (auto simp: Cons.IH Let_def remdups_snoc remdups_filter rev_filter intro!: filter_cong)
qed

lemma normalize_loop_distinct: "distinct (normalize_loop ps [])"
  by (simp add: normalize_loop_char)

lemma normalize_loop_valid: "set (normalize_loop ps []) \<subseteq> set valid_permissions_values"
  by (auto simp add: normalize_loop_char)

lemma normalize_loop_fixed:
  "distinct vs \<Longrightarrow> set vs \<subseteq> set valid_permissions_values \<Longrightarrow> set acc \<inter> set vs = {} \<Longrightarrow>
   normalize_loop vs acc = acc @ vs"
  by (induction vs arbitrary: acc) (auto simp: valid_fixed Let_def)

lemma normalize_permissions_idem:
  "normalize_permissions (normalize_permissions s) = normalize_permissions s"
proof (cases "normalize_loop (split_comma s) [] = []")
  case True
  then show ?thesis
    by (simp add: normalize_permissions_def valid_permissions_values_def lower_def strip_def)
next
  case False
  let ?vs = "normalize_loop (split_comma s) []"
  have "split_comma (join_comma ?vs) = ?vs"
    using False normalize_loop_valid valid_fixed by (intro split_join) auto
  moreover have "normalize_loop ?vs [] = [] @ ?vs"
    by (rule normalize_loop_fixed) (simp_all add: normalize_loop_distinct normalize_loop_valid)
  ultimately show ?thesis by (simp add: normalize_permissions_def)
qed

lemma normalize_permissions_example:
  "normalize_permissions ''read, READ ,write'' = ''read,write''"
  by code_simp

lemma normalize_permissions_example_fields:
  "split_comma (normalize_permissions ''read, READ ,write'') = [''read'', ''write'']"
  by code_simp

lemma isspace_table:
  "filter isspace (map char_of [0..<256::nat]) =
     map char_of [9, 10, 11, 12, 13, 28, 29, 30, 31, 32, 133, 160 :: nat]"
  by code_simp

lemma lower_char_table:
  "map lower_char (map char_of [0..<256::nat]) =
     map char_of ([0..<65] @ [97..<123] @ [91..<256] :: nat list)"
  by code_simp

lemma isspace_lower_char: "isspace c \<Longrightarrow> lower_char c = c"
  by (auto simp: isspace_def lower_char_def Let_def)

lemma lower_char_comma: "lower_char (CHR '','') = CHR '',''"
  by (simp add: lower_char_def)

lemma isspace_not_comma: "isspace c \<Longrightarrow> c \<noteq> CHR '',''"
  by (auto simp: isspace_def)

lemma valid_chars:
  "v \<in> set valid_permissions_values \<Longrightarrow> c \<in> set v \<Longrightarrow> \<not> isspace c \<and> c \<noteq> CHR '',''"
  unfolding valid_permissions_values_def
  by (auto simp: isspace_def)

lemma lower_valid_chars:
  assumes "lower u \<in> set valid_permissions_values" and "c \<in> set u"
  shows "\<not> isspace c \<and> c \<noteq> CHR '',''"
proof -
  have in_v: "lower_char c \<in> set (lower u)"
    using assms(2) by (simp add: lower_def)
  show ?thesis
  proof (intro conjI notI)
    assume "isspace c"
    then show False
      using in_v valid_chars [OF assms(1), of c] by (simp add: isspace_lower_char)
  next
    assume "c = CHR '',''"
    then show False
      using in_v valid_chars [OF assms(1), of c] by (simp add: lower_char_comma)
  qed
qed

lemma strip_trim:
  assumes "list_all isspace wsa" and "list_all isspace wsb"
    and "u = [] \<or> (\<not> isspace (hd u) \<and> \<not> isspace (last u))"
  shows "strip (wsa @ u @ wsb) = u"
proof (cases "u = []")
  case True
  have d: "dropWhile isspace (wsa @ wsb) = []"
    unfolding dropWhile_eq_Nil_conv using assms(1,2) by (auto simp: list_all_iff)
  show ?thesis
    unfolding strip_def True by (simp only: append_Nil d dropWhile.simps rev.simps)
next
  case False
  then obtain x xs where u: "u = x # xs" by (cases u) auto
  have 1: "dropWhile isspace (wsa @ u @ wsb) = u @ wsb"
  proof -
    have "dropWhile isspace (wsa @ u @ wsb) = dropWhile isspace (u @ wsb)"
      using assms(1) by (intro dropWhile_append2) (simp add: list_all_iff)
    then show ?thesis using assms(3) by (simp add: u)
  qed
  have "rev (u @ wsb) = rev wsb @ rev u" by simp
  moreover have "dropWhile isspace (rev wsb @ rev u) = dropWhile isspace (rev u)"
    using assms(2) by (intro dropWhile_append2) (simp add: list_all_iff)
  moreover have "dropWhile isspace (rev u) = rev u"
    using assms(3) False by (cases "rev u") (auto simp: last_rev [symmetric] hd_rev)
  ultimately show ?thesis by (simp add: strip_def 1)
qed

lemma normalize_single:
  assumes "list_all isspace wsa" and "list_all isspace wsb"
    and "lower u \<in> set valid_permissions_values"
  shows "normalize_permissions (wsa @ u @ wsb) = lower u"
proof -
  have nc: "CHR '','' \<notin> set (wsa @ u @ wsb)"
    using assms lower_valid_chars [OF assms(3)] by (auto simp: list_all_iff dest: isspace_not_comma)
  have "u \<noteq> []"
    using assms(3) by (auto simp: valid_permissions_values_def lower_def)
  then have ends: "\<not> isspace (hd u) \<and> \<not> isspace (last u)"
    using lower_valid_chars [OF assms(3)] by simp
  have "strip (wsa @ u @ wsb) = u"
    using assms(1,2) ends by (intro strip_trim) simp_all
  then show ?thesis
    using assms(3)
    by (simp add: normalize_permissions_def split_comma_no_comma [OF nc] Let_def)
qed

lemma normalize_unknown:
  assumes "CHR '','' \<notin> set p" and "lower (strip p) \<notin> set valid_permissions_values"
  shows "normalize_permissions p = []"
  using assms by (simp add: normalize_permissions_def split_comma_no_comma Let_def)

lemma vocabulary:
  "valid_permissions_values = [''read'', ''write'', ''add'', ''delete'', ''selfwrite'', ''all'']"
  by (simp add: valid_permissions_values_def)

lemma normalize_examples:
  "normalize_permissions ''read, READ ,write'' = ''read,write''"
  "normalize_permissions ''  Write ,READ,bogus, all,write'' = ''write,read,all''"
  "normalize_permissions ''all,selfwrite,delete,add,write,read'' =
     ''all,selfwrite,delete,add,write,read''"
  "normalize_permissions ''re ad,w rite'' = []"
  "normalize_permissions (''read'' @ [CHR 0x1F] @ '',write'') = ''read,write''"
  "normalize_permissions ([CHR 0x85] @ ''add'' @ [CHR 0xA0]) = ''add''"
  by code_simp+

text \<open>
  Claim C6, as the code has it. \<^verbatim>\<open>_normalize_permissions\<close> takes a comma-separated
  text to a comma-separated text, not to a list, and is idempotent on texts. The result
  joins with commas the fields of the input, each trimmed (\<^verbatim>\<open>strip\<close> takes off the white
  space at both ends and nothing else) and lowercased, of which the fields in read, write,
  add, delete, selfwrite, all are kept, each at its first occurrence (\<^const>\<open>remdups\<close>
  keeps last occurrences, whence the two reversals); the list has no duplicates. A word of
  the vocabulary in any letter case, between any white space, gives that word in lower
  case; a field outside the vocabulary gives nothing. The white-space characters and the
  case folding are listed for every code point below 256. On \<^verbatim>\<open>"read, READ ,write"\<close>
  the result is the text \<^verbatim>\<open>read,write\<close>, whose fields are read and write.
\<close>

theorem normalize_permissions_text:
  "normalize_permissions (normalize_permissions s) = normalize_permissions s \<and>
   normalize_permissions s =
     join_comma (rev (remdups (rev (filter
       (\<lambda>t. t \<in> set [''read'', ''write'', ''add'', ''delete'', ''selfwrite'', ''all''])
       (map (\<lambda>p. lower (strip p)) (split_comma s)))))) \<and>
   distinct (normalize_loop (split_comma s) []) \<and>
   (list_all isspace wsa \<and> list_all isspace wsb \<and>
    (u = [] \<or> (\<not> isspace (hd u) \<and> \<not> isspace (last u))) \<longrightarrow>
      strip (wsa @ u @ wsb) = u) \<and>
   (list_all isspace wsa \<and> list_all isspace wsb \<and>
    lower u \<in> set [''read'', ''write'', ''add'', ''delete'', ''selfwrite'', ''all''] \<longrightarrow>
      normalize_permissions (wsa @ u @ wsb) = lower u) \<and>
   (CHR '','' \<notin> set p \<and>
    lower (strip p) \<notin> set [''read'', ''write'', ''add'', ''delete'', ''selfwrite'', ''all''] \<longrightarrow>
      normalize_permissions p = []) \<and>
   filter isspace (map char_of [0..<256::nat]) =
     map char_of [9, 10, 11, 12, 13, 28, 29, 30, 31, 32, 133, 160 :: nat] \<and>
   map lower_char (map char_of [0..<256::nat]) =
     map char_of ([0..<65] @ [97..<123] @ [91..<256] :: nat list) \<and>
   normalize_permissions_call (PyText ''read, READ ,write'') = Inr (PyText ''read,write'') \<and>
   split_comma ''read,write'' = [''read'', ''write''] \<and>
   normalize_permissions ''  Write ,READ,bogus, all,write'' = ''write,read,all'' \<and>
   normalize_permissions ''all,selfwrite,delete,add,write,read'' =
     ''all,selfwrite,delete,add,write,read'' \<and>
   normalize_permissions ''re ad,w rite'' = [] \<and>
   normalize_permissions (''read'' @ [CHR 0x1F] @ '',write'') = ''read,write'' \<and>
   normalize_permissions ([CHR 0x85] @ ''add'' @ [CHR 0xA0]) = ''add''"
proof -
  have c: "normalize_permissions s =
     join_comma (rev (remdups (rev (filter
       (\<lambda>t. t \<in> set [''read'', ''write'', ''add'', ''delete'', ''selfwrite'', ''all''])
       (map (\<lambda>p. lower (strip p)) (split_comma s))))))"
    by (simp only: normalize_permissions_def normalize_loop_char vocabulary [symmetric]) simp
  have t: "list_all isspace wsa \<and> list_all isspace wsb \<and>
      (u = [] \<or> (\<not> isspace (hd u) \<and> \<not> isspace (last u))) \<longrightarrow>
      strip (wsa @ u @ wsb) = u"
    using strip_trim [of wsa wsb u] by blast
  have n: "list_all isspace wsa \<and> list_all isspace wsb \<and>
      lower u \<in> set [''read'', ''write'', ''add'', ''delete'', ''selfwrite'', ''all''] \<longrightarrow>
      normalize_permissions (wsa @ u @ wsb) = lower u"
    using normalize_single [of wsa wsb u] unfolding vocabulary by blast
  have k: "CHR '','' \<notin> set p \<and>
      lower (strip p) \<notin> set [''read'', ''write'', ''add'', ''delete'', ''selfwrite'', ''all''] \<longrightarrow>
      normalize_permissions p = []"
    using normalize_unknown [of p] unfolding vocabulary by blast
  have call: "normalize_permissions_call (PyText ''read, READ ,write'') = Inr (PyText ''read,write'')"
    by (simp add: normalize_permissions_call_def normalize_examples(1))
  have sp: "split_comma ''read,write'' = [''read'', ''write'']"
    by simp
  show ?thesis
    by (intro conjI normalize_permissions_idem c normalize_loop_distinct t n k isspace_table
        lower_char_table call sp normalize_examples(2-6))
qed

theorem normalize_permissions_text_witness:
  "list_all isspace ''  '' \<and> list_all isspace [CHR 0x09, CHR 0xA0] \<and>
   lower ''WrItE'' = ''write'' \<and>
   strip (''  '' @ ''WrItE'' @ [CHR 0x09, CHR 0xA0]) = ''WrItE'' \<and>
   normalize_permissions (''  '' @ ''WrItE'' @ [CHR 0x09, CHR 0xA0]) = ''write'' \<and>
   normalize_permissions ''bogus'' = []"
proof -
  have w: "list_all isspace ''  ''" "list_all isspace [CHR 0x09, CHR 0xA0]"
    "lower ''WrItE'' = ''write''" "\<not> isspace (hd ''WrItE'')" "\<not> isspace (last ''WrItE'')"
    "lower (strip ''bogus'') = ''bogus''"
    by code_simp+
  note th = normalize_permissions_text [where wsa = "''  ''" and u = "''WrItE''"
      and wsb = "[CHR 0x09, CHR 0xA0]" and p = "''bogus''" and s = "[]"]
  note c3 = th [THEN conjunct2, THEN conjunct2, THEN conjunct2]
  have 1: "strip (''  '' @ ''WrItE'' @ [CHR 0x09, CHR 0xA0]) = ''WrItE''"
    using c3 [THEN conjunct1] w by blast
  have 2: "normalize_permissions (''  '' @ ''WrItE'' @ [CHR 0x09, CHR 0xA0]) = ''write''"
    using c3 [THEN conjunct2, THEN conjunct1] w(1,2,3) by simp
  have 3: "normalize_permissions ''bogus'' = []"
    using c3 [THEN conjunct2, THEN conjunct2, THEN conjunct1] w(6) by simp
  show ?thesis
    using w(1,2,3) 1 2 3 by blast
qed

theorem normalize_permissions_list_counterexample:
  "normalize_permissions_call (PyText ''read, READ ,write'') \<noteq>
     Inr (PyList [''read'', ''write'']) \<and>
   normalize_permissions_call (PyList [''read'', ''write'']) = Inl AttributeError"
  by (simp add: normalize_permissions_call_def)

section \<open>Facts about decoding, lookup and the loops\<close>

lemma convert_loop_eq:
  "convert_loop cls acistrs acis = Inr (acis @ List.map_filter (parse cls) acistrs)"
  by (induction acistrs arbitrary: acis)
     (auto simp: ACI_def List.map_filter_simps split: option.splits)

lemma convert_strings_to_acis_eq:
  "convert_strings_to_acis cls acistrs = Inr (List.map_filter (parse cls) acistrs)"
  by (simp add: convert_strings_to_acis_def convert_loop_eq)

lemma find_aci_by_name_eq:
  "find_aci_by_name acis n =
     (case List.find (\<lambda>a. lower (name a) = lower n) acis of
        None \<Rightarrow> Inl NotFound | Some a \<Rightarrow> Inr a)"
  by (induction acis) auto

lemma get_aci_get_entry:
  "get_aci (get_entry d [''aci'']) = get_aci (base_entry d)"
  by (simp add: get_aci_def get_entry_def)

lemma get_entry_acis: "get_entry d [''aci''] ''acis'' = None"
  by (simp add: get_entry_def)


lemma delete_loop_eq:
  "set rest \<subseteq> set acistrs \<Longrightarrow>
   delete_loop cls found rest acistrs =
     (case List.find (\<lambda>s. isequal cls found (Inl s)) rest of
        None \<Rightarrow> Inr acistrs | Some a \<Rightarrow> Inr (remove1 a acistrs))"
  by (induction rest) (auto simp: list_remove_def)

lemma find_SomeD: "List.find P xs = Some a \<Longrightarrow> P a"
  by (induction xs) (auto split: if_splits)

lemma remove1_first:
  "List.find P xs = Some a \<Longrightarrow>
   remove1 a xs = takeWhile (\<lambda>s. \<not> P s) xs @ tl (dropWhile (\<lambda>s. \<not> P s) xs)"
  by (induction xs) (auto split: if_splits dest: find_SomeD)

lemma find_None_takeWhile:
  "List.find P xs = None \<Longrightarrow>
   xs = takeWhile (\<lambda>s. \<not> P s) xs @ tl (dropWhile (\<lambda>s. \<not> P s) xs)"
  by (induction xs) (auto split: if_splits)

lemma delete_loop_first:
  "delete_loop cls found acistrs acistrs =
     Inr (takeWhile (\<lambda>s. \<not> isequal cls found (Inl s)) acistrs @
          tl (dropWhile (\<lambda>s. \<not> isequal cls found (Inl s)) acistrs))"
  using remove1_first [of "\<lambda>s. isequal cls found (Inl s)" acistrs]
        find_None_takeWhile [of "\<lambda>s. isequal cls found (Inl s)" acistrs]
  by (auto simp: delete_loop_eq split: option.splits)

lemma distinct_objects: "distinct (objects acis)"
  by (simp add: objects_def distinct_zipI1)

lemma term_loop_eq:
  "distinct acis \<Longrightarrow>
   term_loop t acis results =
     results @ filter (\<lambda>a. find_ne (lower (name (snd a))) t \<and> a \<notin> set results) acis"
proof (induction acis arbitrary: results)
  case Nil
  then show ?case by simp
next
  case (Cons a acis)
  then show ?case by (auto intro!: filter_cong)
qed

lemma pass_term_eq:
  "distinct acis \<Longrightarrow> pass_term t acis = (filter (term_ok t) acis, filter (term_ok t) acis)"
  by (auto simp: pass_term_def term_loop_eq term_ok_def Let_def intro!: filter_cong)

lemma remove_loop_eq:
  assumes "distinct results" and "set acis \<subseteq> set results" and "distinct acis"
  shows "remove_loop test acis results =
     (case List.find (\<lambda>a. isl (test a)) acis of
        Some a \<Rightarrow> Inl (projl (test a))
      | None \<Rightarrow> Inr (filter (\<lambda>a. a \<notin> set acis \<or> test a = Inr False) results))"
  using assms
proof (induction acis arbitrary: results)
  case Nil
  then show ?case by simp
next
  case (Cons a acis)
  show ?case
  proof (cases "test a")
    case (Inl err)
    then show ?thesis by simp
  next
    case (Inr b)
    show ?thesis
    proof (cases b)
      case True
      have r: "remove1 a results = filter (\<lambda>x. x \<noteq> a) results"
        using Cons.prems(1) by (simp add: distinct_remove1_removeAll removeAll_filter_not_eq) metis
      have "remove_loop test (a # acis) results = remove_loop test acis (remove1 a results)"
        using Inr True Cons.prems(2) by (simp add: list_remove_def)
      also have "\<dots> = (case List.find (\<lambda>a. isl (test a)) acis of
          Some a \<Rightarrow> Inl (projl (test a))
        | None \<Rightarrow> Inr (filter (\<lambda>a. a \<notin> set acis \<or> test a = Inr False) (remove1 a results)))"
        using Cons.prems by (intro Cons.IH) auto
      also have "filter (\<lambda>x. x \<notin> set acis \<or> test x = Inr False) (remove1 a results) =
          filter (\<lambda>x. x \<notin> set (a # acis) \<or> test x = Inr False) results"
        using Inr True by (auto simp: r intro!: filter_cong)
      finally show ?thesis using Inr by simp
    next
      case False
      have "remove_loop test (a # acis) results = remove_loop test acis results"
        using Inr False by simp
      also have "\<dots> = (case List.find (\<lambda>a. isl (test a)) acis of
          Some a \<Rightarrow> Inl (projl (test a))
        | None \<Rightarrow> Inr (filter (\<lambda>a. a \<notin> set acis \<or> test a = Inr False) results))"
        using Cons.prems by (intro Cons.IH) auto
      also have "filter (\<lambda>x. x \<notin> set acis \<or> test x = Inr False) results =
          filter (\<lambda>x. x \<notin> set (a # acis) \<or> test x = Inr False) results"
        using Inr False Cons.prems(3) by (auto intro!: filter_cong)
      finally show ?thesis using Inr by simp
    qed
  qed
qed

lemma remove_loop_total:
  assumes "distinct r"
  shows "remove_loop (\<lambda>a. Inr (\<not> P a)) r r = Inr (filter P r)"
proof -
  have "List.find (\<lambda>a. isl ((Inr (\<not> P a)) :: error + bool)) r = None"
    by (simp add: find_None_iff)
  then show ?thesis
    using remove_loop_eq [OF assms subset_refl assms, of "\<lambda>a. Inr (\<not> P a)"]
    by (auto intro!: filter_cong)
qed

lemma taskgroup2_show_err: "taskgroup2_show d tg = Inl err \<Longrightarrow> err = NotFound"
  by (auto simp: taskgroup2_show_def split: option.splits)

lemma group2_show_err: "group2_show d g = Inl err \<Longrightarrow> err = NotFound"
  by (auto simp: group2_show_def split: option.splits)

lemma pass_aciname_eq:
  "distinct r \<Longrightarrow>
   pass_aciname k (r, r) = Inr (filter (aciname_ok k) r, filter (aciname_ok k) r)"
  by (cases "kw_aciname k")
     (auto simp: pass_aciname_def aciname_ok_def ebind_def remove_loop_total
           intro!: filter_cong)

lemma attrs_test_find:
  "List.find (\<lambda>a. isl (attrs_test v a)) r =
     List.find (\<lambda>a. target_targetattr (snd a) = None) r"
  by (induction r) (auto simp: attrs_test_def split: option.splits)

lemma pass_attrs_eq:
  assumes "distinct r"
  shows "pass_attrs k (r, r) =
     (if kw_attrs k \<noteq> None \<and> list_ex (\<lambda>a. target_targetattr (snd a) = None) r
      then Inl KeyError
      else Inr (filter (attrs_ok k) r, filter (attrs_ok k) r))"
proof (cases "kw_attrs k")
  case None
  then show ?thesis by (simp add: pass_attrs_def attrs_ok_def)
next
  case (Some v)
  show ?thesis
  proof (cases "List.find (\<lambda>a. target_targetattr (snd a) = None) r")
    case None
    then have all: "\<not> list_ex (\<lambda>a. target_targetattr (snd a) = None) r"
      by (auto simp: find_None_iff list_ex_iff)
    then have "filter (\<lambda>a. a \<notin> set r \<or> attrs_test v a = Inr False) r = filter (attrs_ok k) r"
      using Some
      by (intro filter_cong) (auto simp: attrs_test_def attrs_ok_def list_ex_iff split: option.splits)
    then show ?thesis
      using Some None all remove_loop_eq [OF assms subset_refl assms, of "attrs_test v"]
      by (simp add: pass_attrs_def ebind_def attrs_test_find)
  next
    case (Some a)
    then have "target_targetattr (snd a) = None" and "a \<in> set r"
      by (auto simp: find_Some_iff in_set_conv_nth)
    then have "list_ex (\<lambda>a. target_targetattr (snd a) = None) r" and "attrs_test v a = Inl KeyError"
      by (auto simp: list_ex_iff attrs_test_def)
    then show ?thesis
      using \<open>kw_attrs k = Some v\<close> Some remove_loop_eq [OF assms subset_refl assms, of "attrs_test v"]
      by (simp add: pass_attrs_def ebind_def attrs_test_find)
  qed
qed

lemma pass_taskgroup_eq:
  "distinct r \<Longrightarrow>
   pass_taskgroup d k (r, r) = Inr (filter (taskgroup_ok d k) r, filter (taskgroup_ok d k) r)"
  by (cases "kw_taskgroup k"; cases "taskgroup2_show d (the (kw_taskgroup k))")
     (auto simp: pass_taskgroup_def taskgroup_ok_def ebind_def remove_loop_total
           dest: taskgroup2_show_err intro!: filter_cong)

lemma pass_permissions_eq:
  "distinct r \<Longrightarrow>
   pass_permissions k (r, r) = Inr (filter (permissions_ok k) r, filter (permissions_ok k) r)"
  by (cases "kw_permissions k")
     (auto simp: pass_permissions_def permissions_ok_def ebind_def remove_loop_total
           intro!: filter_cong)

lemma memberof_test_eq:
  "memberof_test f = (\<lambda>a. Inr (\<not> target_targetfilter (snd a) = Some f))"
  by (rule ext) (auto simp: memberof_test_def split: option.splits)

lemma pass_memberof_eq:
  "distinct r \<Longrightarrow>
   ebind (pass_memberof d k (r, r)) (\<lambda>s. Inr (fst s)) = Inr (filter (memberof_ok d k) r)"
  by (cases "kw_memberof k"; cases "group2_show d (the (kw_memberof k))")
     (auto simp: pass_memberof_def memberof_ok_def ebind_def remove_loop_total memberof_test_eq
           dest: group2_show_err intro!: filter_cong)

lemma find_results_eq:
  assumes "use_ldap2 e"
  shows "find_results cls e d t k =
     (if kw_attrs k \<noteq> None \<and>
         list_ex (\<lambda>a. target_targetattr (snd a) = None) (find_front cls d t k)
      then Inl KeyError
      else Inr (filter (memberof_ok d k) (filter (permissions_ok k)
             (filter (taskgroup_ok d k) (filter (attrs_ok k) (find_front cls d t k))))))"
proof -
  let ?objs = "objects (List.map_filter (parse cls) (get_aci (base_entry d)))"
  have d0: "distinct ?objs" by (rule distinct_objects)
  have 1: "pass_aciname k (pass_term t ?objs) =
      Inr (find_front cls d t k, find_front cls d t k)"
    by (simp add: pass_term_eq [OF d0] pass_aciname_eq d0 find_front_def)
  have d2: "distinct (find_front cls d t k)"
    by (simp add: find_front_def d0)
  show ?thesis
    using assms
    by (simp add: find_results_def convert_strings_to_acis_eq get_aci_get_entry 1
        ebind_def [of "Inr x" for x] ebind_def [of "Inl x" for x]
        pass_attrs_eq [OF d2] pass_taskgroup_eq pass_permissions_eq pass_memberof_eq d2)
qed

section \<open>Facts about the sample directory\<close>

lemma sample_decoded:
  "List.map_filter (parse sample_cls) (get_aci (base_entry sample_directory)) =
     [aci_admin, aci_helpdesk]"
  by (simp add: sample_cls_def sample_parse_def sample_directory_def get_aci_def
      List.map_filter_simps)


lemma sample_flags: "use_ldap2 sample_env" "kw_aciname no_kw = None"
  by (simp_all add: sample_env_def no_kw_def)

lemma sample_lower:
  "lower ''ADMIN'' = ''admin''" "lower ''Admin'' = ''admin''" "lower ''admin'' = ''admin''"
  "lower ''helpdesk'' = ''helpdesk''" "lower ''nobody'' = ''nobody''"
  by code_simp+

section \<open>Delete\<close>



section \<open>Facts about the search\<close>

lemma find_front_upd [simp]:
  "find_front cls d t (k\<lparr>kw_permissions := x\<rparr>) = find_front cls d t k"
  "find_front cls d t (k\<lparr>kw_taskgroup := y\<rparr>) = find_front cls d t k"
  "find_front cls d t (k\<lparr>kw_memberof := y\<rparr>) = find_front cls d t k"
  by (simp_all add: find_front_def aciname_ok_def [abs_def])

lemma find_results_no_ldap2:
  "\<not> use_ldap2 e \<Longrightarrow> find_results cls e d t k = Inl AssertionError"
  by (simp add: find_results_def)

lemma find_results_permissions:
  "find_results cls e d t (k\<lparr>kw_permissions := Some ps\<rparr>) =
     ebind (find_results cls e d t (k\<lparr>kw_permissions := None\<rparr>))
       (\<lambda>results. Inr (filter (\<lambda>a. sort (permissions (snd a)) = sort ps) results))"
proof (cases "use_ldap2 e")
  case False
  then show ?thesis by (simp add: find_results_no_ldap2 ebind_def)
next
  case True
  show ?thesis
    by (auto simp: find_results_eq [OF True] ebind_def attrs_ok_def taskgroup_ok_def
        permissions_ok_def memberof_ok_def intro!: filter_cong)
qed

lemma sort_eq_mset: "sort xs = sort ys \<longleftrightarrow> mset xs = mset ys"
  by (metis mset_sort properties_for_sort sorted_sort)

lemma find_results_taskgroup_unresolved:
  assumes "taskgroup2_show d tg = Inl NotFound"
  shows "find_results cls e d t (k\<lparr>kw_taskgroup := Some tg\<rparr>) =
     find_results cls e d t (k\<lparr>kw_taskgroup := None\<rparr>)"
proof (cases "use_ldap2 e")
  case False
  then show ?thesis by (simp add: find_results_no_ldap2)
next
  case True
  show ?thesis
    using assms
    by (auto simp: find_results_eq [OF True] attrs_ok_def taskgroup_ok_def
        permissions_ok_def memberof_ok_def intro!: filter_cong)
qed

lemma find_results_taskgroup_resolved:
  assumes "taskgroup2_show d tg = Inr dn"
  shows "find_results cls e d t (k\<lparr>kw_taskgroup := Some tg\<rparr>) =
     ebind (find_results cls e d t (k\<lparr>kw_taskgroup := None\<rparr>))
       (\<lambda>results. Inr (filter (\<lambda>a. bindrule_expression (snd a) = ''ldap:///'' @ dn) results))"
proof (cases "use_ldap2 e")
  case False
  then show ?thesis by (simp add: find_results_no_ldap2 ebind_def)
next
  case True
  show ?thesis
    using assms
    by (auto simp: find_results_eq [OF True] ebind_def attrs_ok_def taskgroup_ok_def
        permissions_ok_def memberof_ok_def intro!: filter_cong)
qed

lemma find_results_memberof_unresolved:
  assumes "group2_show d m = Inl NotFound"
  shows "find_results cls e d t (k\<lparr>kw_memberof := Some m\<rparr>) =
     find_results cls e d t (k\<lparr>kw_memberof := None\<rparr>)"
proof (cases "use_ldap2 e")
  case False
  then show ?thesis by (simp add: find_results_no_ldap2)
next
  case True
  show ?thesis
    using assms
    by (auto simp: find_results_eq [OF True] attrs_ok_def taskgroup_ok_def
        permissions_ok_def memberof_ok_def intro!: filter_cong)
qed

lemma find_results_memberof_resolved:
  assumes "group2_show d m = Inr dn"
  shows "find_results cls e d t (k\<lparr>kw_memberof := Some m\<rparr>) =
     ebind (find_results cls e d t (k\<lparr>kw_memberof := None\<rparr>))
       (\<lambda>results. Inr (filter
          (\<lambda>a. target_targetfilter (snd a) = Some (''(memberOf='' @ dn @ '')'')) results))"
proof (cases "use_ldap2 e")
  case False
  then show ?thesis by (simp add: find_results_no_ldap2 ebind_def)
next
  case True
  show ?thesis
    using assms
    by (auto simp: find_results_eq [OF True] ebind_def attrs_ok_def taskgroup_ok_def
        permissions_ok_def memberof_ok_def intro!: filter_cong)
qed





lemma aci2_show_execute_eq:
  assumes "use_ldap2 e"
  shows "aci2_show_execute cls e d n k =
     (case List.find (\<lambda>a. lower (name a) = lower n)
             (List.map_filter (parse cls) (get_aci (base_entry d))) of
        None \<Rightarrow> Inl NotFound
      | Some a \<Rightarrow> Inr (str cls a))"
  using assms
  by (simp add: aci2_show_execute_def convert_strings_to_acis_eq get_aci_get_entry
      find_aci_by_name_eq ebind_def split: option.splits)


lemma sample_find_all:
  "find_results sample_cls sample_env sample_directory [] no_kw =
     Inr [(0, aci_admin), (1, aci_helpdesk)]"
  by (simp add: find_results_eq [OF sample_flags(1)] find_front_def sample_decoded
      objects_def no_kw_def attrs_ok_def taskgroup_ok_def permissions_ok_def memberof_ok_def
      aciname_ok_def term_ok_def upt_rec)

lemma sample_sort:
  "sort [''write'', ''read''] = [''read'', ''write'']"
  "sort [''read'', ''write''] = [''read'', ''write'']"
  "sort [''read'', ''write'', ''add''] = [''add'', ''read'', ''write'']"
  by code_simp+

lemma no_kw_upd:
  "no_kw\<lparr>kw_permissions := None\<rparr> = no_kw" "no_kw\<lparr>kw_taskgroup := None\<rparr> = no_kw"
  "no_kw\<lparr>kw_memberof := None\<rparr> = no_kw" "no_kw\<lparr>kw_aciname := None\<rparr> = no_kw"
  by (simp_all add: no_kw_def)

section \<open>Search by permissions\<close>

text \<open>
  Claim C7. With the \<^verbatim>\<open>permissions\<close> criterion \<^verbatim>\<open>aci2_find.execute\<close> returns the
  serializations of exactly those ACIs, of the ones it returns without the criterion,
  whose sorted permission list equals the sorted list of the request: the two lists hold
  the same permissions the same number of times, in any order. On the sample directory
  the request for write, read finds the ACI that stores read, write and not the one that
  stores read, write, add.
\<close>

theorem find_permissions_exact:
  "aci2_find_execute cls e d t (k\<lparr>kw_permissions := Some ps\<rparr>) =
     ebind (find_results cls e d t (k\<lparr>kw_permissions := None\<rparr>))
       (\<lambda>results. Inr (map (\<lambda>a. str cls (snd a))
          (filter (\<lambda>a. sort (permissions (snd a)) = sort ps) results))) \<and>
   (sort (permissions a) = sort ps \<longleftrightarrow> mset (permissions a) = mset ps)"
  by (simp add: aci2_find_execute_def find_results_permissions ebind_def sort_eq_mset
      split: sum.splits)

theorem find_permissions_exact_witness:
  "permissions aci_admin = [''read'', ''write''] \<and>
   permissions aci_helpdesk = [''read'', ''write'', ''add''] \<and>
   aci2_find_execute sample_cls sample_env sample_directory []
     (no_kw\<lparr>kw_permissions := Some [''write'', ''read'']\<rparr>) = Inr [''ACI Admin'']"
  using find_permissions_exact [where cls = sample_cls and e = sample_env
      and d = sample_directory and t = "[]" and k = no_kw and ps = "[''write'', ''read'']"
      and a = aci_admin]
  by (simp add: no_kw_upd sample_find_all ebind_def sample_sort)
     (simp add: aci_admin_def aci_helpdesk_def sample_sort sample_cls_def)

section \<open>Search by task-group and by group membership\<close>

text \<open>
  Claim C8. In \<^verbatim>\<open>aci2_find.execute\<close>, a \<^verbatim>\<open>taskgroup\<close> or \<^verbatim>\<open>memberof\<close> criterion whose
  name the lookup does not find changes nothing: the result is that of the search without
  the criterion, and no error is raised. When the task-group resolves to a DN, the ACIs
  kept are those whose bind rule expression is \<^verbatim>\<open>ldap:///\<close> followed by the DN; when the
  group resolves to a DN, the ACIs kept are those that have a target filter equal to
  \<^verbatim>\<open>(memberOf=DN)\<close>.
\<close>

theorem find_taskgroup_memberof_passes:
  "(taskgroup2_show d tg = Inl NotFound \<longrightarrow>
      aci2_find_execute cls e d t (k\<lparr>kw_taskgroup := Some tg\<rparr>) =
      aci2_find_execute cls e d t (k\<lparr>kw_taskgroup := None\<rparr>)) \<and>
   (taskgroup2_show d tg = Inr dn \<longrightarrow>
      aci2_find_execute cls e d t (k\<lparr>kw_taskgroup := Some tg\<rparr>) =
      ebind (find_results cls e d t (k\<lparr>kw_taskgroup := None\<rparr>))
        (\<lambda>results. Inr (map (\<lambda>a. str cls (snd a))
           (filter (\<lambda>a. bindrule_expression (snd a) = ''ldap:///'' @ dn) results)))) \<and>
   (group2_show d m = Inl NotFound \<longrightarrow>
      aci2_find_execute cls e d t (k\<lparr>kw_memberof := Some m\<rparr>) =
      aci2_find_execute cls e d t (k\<lparr>kw_memberof := None\<rparr>)) \<and>
   (group2_show d m = Inr dn' \<longrightarrow>
      aci2_find_execute cls e d t (k\<lparr>kw_memberof := Some m\<rparr>) =
      ebind (find_results cls e d t (k\<lparr>kw_memberof := None\<rparr>))
        (\<lambda>results. Inr (map (\<lambda>a. str cls (snd a))
           (filter (\<lambda>a. target_targetfilter (snd a) = Some (''(memberOf='' @ dn' @ '')''))
              results))))"
  by (simp add: aci2_find_execute_def find_results_taskgroup_unresolved
      find_results_taskgroup_resolved find_results_memberof_unresolved
      find_results_memberof_resolved ebind_def split: sum.splits)

theorem find_taskgroup_memberof_passes_witness:
  "taskgroup2_show sample_directory ''nobody'' = Inl NotFound \<and>
   aci2_find_execute sample_cls sample_env sample_directory []
     (no_kw\<lparr>kw_taskgroup := Some ''nobody''\<rparr>) = Inr [''ACI Admin'', ''ACI helpdesk''] \<and>
   taskgroup2_show sample_directory ''g1'' = Inr ''cn=g1,cn=taskgroups,dc=example'' \<and>
   aci2_find_execute sample_cls sample_env sample_directory []
     (no_kw\<lparr>kw_taskgroup := Some ''g1''\<rparr>) = Inr [''ACI Admin''] \<and>
   group2_show sample_directory ''nobody'' = Inl NotFound \<and>
   aci2_find_execute sample_cls sample_env sample_directory []
     (no_kw\<lparr>kw_memberof := Some ''nobody''\<rparr>) = Inr [''ACI Admin'', ''ACI helpdesk''] \<and>
   group2_show sample_directory ''m1'' = Inr ''cn=m1,cn=groups,dc=example'' \<and>
   aci2_find_execute sample_cls sample_env sample_directory []
     (no_kw\<lparr>kw_memberof := Some ''m1''\<rparr>) = Inr [''ACI helpdesk'']"
proof -
  have s: "taskgroup2_show sample_directory ''nobody'' = Inl NotFound"
    "taskgroup2_show sample_directory ''g1'' = Inr ''cn=g1,cn=taskgroups,dc=example''"
    "group2_show sample_directory ''nobody'' = Inl NotFound"
    "group2_show sample_directory ''m1'' = Inr ''cn=m1,cn=groups,dc=example''"
    by (simp_all add: taskgroup2_show_def group2_show_def sample_directory_def)
  have all: "aci2_find_execute sample_cls sample_env sample_directory [] no_kw =
      Inr [''ACI Admin'', ''ACI helpdesk'']"
    by (simp add: aci2_find_execute_def sample_find_all ebind_def)
       (simp add: sample_cls_def aci_admin_def aci_helpdesk_def)
  show ?thesis
    using find_taskgroup_memberof_passes [where d = sample_directory and tg = "''nobody''"
        and cls = sample_cls and e = sample_env and t = "[]" and k = no_kw and m = "''nobody''"]
      find_taskgroup_memberof_passes [where d = sample_directory and tg = "''g1''"
        and cls = sample_cls and e = sample_env and t = "[]" and k = no_kw and m = "''m1''"
        and dn = "''cn=g1,cn=taskgroups,dc=example''" and dn' = "''cn=m1,cn=groups,dc=example''"]
    by (simp add: s no_kw_upd all sample_find_all ebind_def)
       (simp add: aci_admin_def aci_helpdesk_def sample_cls_def)
qed

section \<open>Search by name, lookup by name\<close>



section \<open>Malformed stored strings\<close>

lemma map_filter_filter:
  "List.map_filter f (filter (\<lambda>s. f s \<noteq> None) xs) = List.map_filter f xs"
  by (induction xs) (auto simp: List.map_filter_simps split: option.splits)

lemma drop_malformed_simps [simp]:
  "List.map_filter (parse cls) (get_aci (base_entry (drop_malformed cls d))) =
     List.map_filter (parse cls) (get_aci (base_entry d))"
  "taskgroups (drop_malformed cls d) = taskgroups d"
  "groups (drop_malformed cls d) = groups d"
  by (simp_all add: drop_malformed_def get_aci_def map_filter_filter del: not_None_eq)

lemma drop_malformed_show [simp]:
  "taskgroup2_show (drop_malformed cls d) tg = taskgroup2_show d tg"
  "group2_show (drop_malformed cls d) g = group2_show d g"
  by (simp_all add: taskgroup2_show_def group2_show_def)

lemma drop_malformed_taskgroups:
  "drop_malformed cls (d\<lparr>taskgroups := x\<rparr>) = (drop_malformed cls d)\<lparr>taskgroups := x\<rparr>"
  by (simp add: drop_malformed_def)

lemma convert_drop:
  assumes "ACI cls (Some s) = Inl SyntaxError"
  shows "convert_strings_to_acis cls (xs @ s # ys) = convert_strings_to_acis cls (xs @ ys)"
proof -
  have "parse cls s = None"
    using assms by (simp add: ACI_def split: option.splits)
  then show ?thesis
    by (simp add: convert_strings_to_acis_eq List.map_filter_def)
qed

lemma show_drop:
  "aci2_show_execute cls e d n k = aci2_show_execute cls e (drop_malformed cls d) n k"
  by (simp add: aci2_show_execute_def convert_strings_to_acis_eq get_aci_get_entry)

lemma drop_malformed_pass [simp]:
  "pass_taskgroup (drop_malformed cls d) k s = pass_taskgroup d k s"
  "pass_memberof (drop_malformed cls d) k s = pass_memberof d k s"
  by (simp_all add: pass_taskgroup_def pass_memberof_def split: option.splits)

lemma find_results_drop:
  "find_results cls e d t k = find_results cls e (drop_malformed cls d) t k"
  by (simp add: find_results_def convert_strings_to_acis_eq get_aci_get_entry)

lemma mod_merge_drop:
  "mod_merge cls e d n k = mod_merge cls e (drop_malformed cls d) n k"
  by (simp add: mod_merge_def convert_strings_to_acis_eq get_aci_get_entry)

lemma delete_fst:
  "fst (aci2_delete_execute cls e d n k) =
     (if kw_aciname k \<noteq> None \<or> \<not> use_ldap2 e then Inl AssertionError
      else case List.find (\<lambda>a. lower (name a) = lower n)
             (List.map_filter (parse cls) (get_aci (base_entry d))) of
        None \<Rightarrow> Inl NotFound | Some a \<Rightarrow> Inr True)"
  by (simp add: aci2_delete_execute_def convert_strings_to_acis_eq get_aci_get_entry
      find_aci_by_name_eq delete_loop_first Let_def split: option.splits)

lemma make_aci_body_groups:
  "groups d1 = groups d2 \<Longrightarrow>
   make_aci_body cls e d1 current n k dn = make_aci_body cls e d2 current n k dn"
  by (simp add: make_aci_body_def apply_memberof_def apply_targetgroup_def group2_show_def
      ebind_def split: option.splits sum.splits)

lemma make_aci_drop:
  "make_aci cls e (drop_malformed cls d) current n k =
     (case make_aci cls e d current n k of (r, d') \<Rightarrow> (r, drop_malformed cls d'))"
  by (auto simp: make_aci_def resolve_taskgroup_def taskgroup2_show_def taskgroup2_create_def
      drop_malformed_taskgroups split: option.splits intro!: make_aci_body_groups)

lemma create_fst:
  "fst (aci2_create_execute cls e d n k) =
     (if kw_aciname k \<noteq> None \<or> \<not> use_ldap2 e then Inl AssertionError
      else case make_aci cls e d None n k of
        (Inl err, d') \<Rightarrow> Inl err
      | (Inr newaci, d') \<Rightarrow>
          if list_ex (\<lambda>a. isequal cls a (Inr newaci))
               (List.map_filter (parse cls) (get_aci (base_entry d')))
          then Inl DuplicateEntry else Inl KeyError)"
  by (simp add: aci2_create_execute_def convert_strings_to_acis_eq get_aci_get_entry
      get_entry_acis Let_def split: prod.splits sum.splits)

text \<open>
  Claim C9. \<^verbatim>\<open>_convert_strings_to_acis\<close> never raises: it returns the ACIs of the strings
  the constructor accepts, in their order, and a string on which the constructor raises
  SyntaxError can be taken out of the list without changing the result. Every command
  decodes the stored attribute through it, and what show, find, create and delete return
  (or raise), and the request that modify completes from the existing ACI, are the same
  on the directory and on the directory without its malformed strings.
\<close>

theorem malformed_entries_dropped:
  "convert_strings_to_acis cls acistrs = Inr (List.map_filter (parse cls) acistrs) \<and>
   (ACI cls (Some s) = Inl SyntaxError \<longrightarrow>
      convert_strings_to_acis cls (xs @ s # ys) = convert_strings_to_acis cls (xs @ ys)) \<and>
   aci2_show_execute cls e d n k = aci2_show_execute cls e (drop_malformed cls d) n k \<and>
   aci2_find_execute cls e d t k = aci2_find_execute cls e (drop_malformed cls d) t k \<and>
   fst (aci2_create_execute cls e d n k) =
     fst (aci2_create_execute cls e (drop_malformed cls d) n k) \<and>
   fst (aci2_delete_execute cls e d n k) =
     fst (aci2_delete_execute cls e (drop_malformed cls d) n k) \<and>
   mod_merge cls e d n k = mod_merge cls e (drop_malformed cls d) n k"
proof -
  have "fst (aci2_create_execute cls e d n k) =
     fst (aci2_create_execute cls e (drop_malformed cls d) n k)"
    by (simp add: create_fst make_aci_drop split: prod.splits sum.splits)
  then show ?thesis
    using convert_drop [of cls s xs ys] show_drop [of cls e d n k] find_results_drop [of cls e d t k]
      mod_merge_drop [of cls e d n k]
    by (simp add: convert_strings_to_acis_eq aci2_find_execute_def delete_fst)
qed

theorem malformed_entries_dropped_witness:
  "ACI sample_cls (Some ''not an ACI'') = Inl SyntaxError \<and>
   convert_strings_to_acis sample_cls ([] @ ''not an ACI'' # [''ACI Admin'', ''ACI helpdesk'']) =
     Inr [aci_admin, aci_helpdesk] \<and>
   convert_strings_to_acis sample_cls ([] @ [''ACI Admin'', ''ACI helpdesk'']) =
     Inr [aci_admin, aci_helpdesk] \<and>
   aci2_show_execute sample_cls sample_env (drop_malformed sample_cls sample_directory)
     ''helpdesk'' no_kw = Inr ''ACI helpdesk'' \<and>
   aci2_show_execute sample_cls sample_env sample_directory ''helpdesk'' no_kw =
     Inr ''ACI helpdesk''"
proof -
  have p: "parse sample_cls ''not an ACI'' = None" "parse sample_cls ''ACI Admin'' = Some aci_admin"
    "parse sample_cls ''ACI helpdesk'' = Some aci_helpdesk"
    by (simp_all add: sample_cls_def sample_parse_def)
  have sh: "aci2_show_execute sample_cls sample_env sample_directory ''helpdesk'' no_kw =
      Inr ''ACI helpdesk''"
    by (simp add: aci2_show_execute_eq [OF sample_flags(1)] sample_decoded)
       (simp add: aci_admin_def aci_helpdesk_def sample_lower sample_cls_def)
  show ?thesis
    using malformed_entries_dropped [where cls = sample_cls and s = "''not an ACI''"
        and xs = "[]" and ys = "[''ACI Admin'', ''ACI helpdesk'']" and e = sample_env
        and d = sample_directory and n = "''helpdesk''" and k = no_kw
        and acistrs = "[''ACI Admin'', ''ACI helpdesk'']"]
    by (simp add: ACI_def p sh List.map_filter_simps)
qed

section \<open>The builder and the lookups\<close>

lemma make_aci_fst:
  assumes "kw_taskgroup k = Some tg"
  shows "make_aci cls e d current aciname k =
     (case taskgroup2_show d tg of
        Inl err \<Rightarrow>
          (make_aci_body cls e (d\<lparr>taskgroups := (taskgroups d)(tg \<mapsto> (taskgroup_dn e tg, aciname))\<rparr>)
             current aciname k (taskgroup_dn e tg),
           d\<lparr>taskgroups := (taskgroups d)(tg \<mapsto> (taskgroup_dn e tg, aciname))\<rparr>)
      | Inr dn \<Rightarrow> (make_aci_body cls e d current aciname k dn, d))"
  using assms
  by (auto simp: make_aci_def resolve_taskgroup_def taskgroup2_create_def
      split: sum.splits dest: taskgroup2_show_err)

lemma make_aci_base_entry:
  "base_entry (snd (make_aci cls e d current aciname k)) = base_entry d"
  by (simp add: make_aci_def resolve_taskgroup_def taskgroup2_create_def
      split: option.splits sum.splits)

lemma make_aci_groups:
  "groups (snd (make_aci cls e d current aciname k)) = groups d"
  by (simp add: make_aci_def resolve_taskgroup_def taskgroup2_create_def
      split: option.splits sum.splits)

lemma make_aci_body_memberof_notfound:
  assumes "kw_permissions k = Some ps" and "kw_memberof k = Some m"
    and "group2_show d m = Inl NotFound"
  shows "make_aci_body cls e d None aciname k dn = Inl NotFound"
  using assms by (simp add: make_aci_body_def ACI_def ebind_def apply_memberof_def)

lemma type_map_known:
  "t \<in> set [''user'', ''group'', ''host''] \<Longrightarrow> \<exists>target. map_of (type_map e) t = Some target"
  by (auto simp: type_map_def)

lemma make_aci_body_targetgroup_notfound:
  assumes "kw_permissions k = Some ps" and "kw_targetgroup k = Some g"
    and "group2_show d g = Inl NotFound"
    and "\<forall>t. kw_type k = Some t \<longrightarrow> t \<in> set [''user'', ''group'', ''host'']"
  shows "make_aci_body cls e d None aciname k dn = Inl NotFound"
proof -
  have ty: "\<exists>a'. apply_type cls e k a = Inr a'" for a
  proof (cases "kw_type k")
    case None
    then show ?thesis by (simp add: apply_type_def)
  next
    case (Some t)
    then have "t \<in> set [''user'', ''group'', ''host'']"
      using assms(4) by blast
    then obtain target where "map_of (type_map e) t = Some target"
      using type_map_known by blast
    then show ?thesis using Some by (simp add: apply_type_def)
  qed
  have mo: "apply_memberof cls d k a = Inl NotFound \<or> (\<exists>a'. apply_memberof cls d k a = Inr a')"
    for a
    by (auto simp: apply_memberof_def split: option.splits sum.splits dest: group2_show_err)
  have tg: "apply_targetgroup cls d k a = Inl NotFound" for a
    using assms by (simp add: apply_targetgroup_def)
  let ?a = "apply_attrs cls k
      (set_bindrule cls ((blank cls)\<lparr>name := aciname, permissions := ps\<rparr>) (groupdn_rule dn))"
  from mo [of ?a] show ?thesis
  proof
    assume "apply_memberof cls d k ?a = Inl NotFound"
    then show ?thesis
      using assms(1) by (simp add: make_aci_body_def ACI_def ebind_def)
  next
    assume "\<exists>a'. apply_memberof cls d k ?a = Inr a'"
    then obtain a' where 1: "apply_memberof cls d k ?a = Inr a'" ..
    obtain a'' where 2: "apply_type cls e k (apply_filter cls k a') = Inr a''"
      using ty by blast
    show ?thesis
      using assms(1) 1 2 tg by (simp add: make_aci_body_def ACI_def ebind_def)
  qed
qed

lemma make_aci_body_plain:
  assumes "kw_permissions k = Some ps" and "kw_attrs k = None" and "kw_memberof k = None"
    and "kw_filter k = None" and "kw_type k = None" and "kw_targetgroup k = None"
    and "kw_subtree k = None"
  shows "make_aci_body cls e d None aciname k dn =
     Inr (set_bindrule cls ((blank cls)\<lparr>name := aciname, permissions := ps\<rparr>) (groupdn_rule dn))"
  using assms
  by (simp add: make_aci_body_def ACI_def ebind_def apply_attrs_def apply_memberof_def
      apply_filter_def apply_type_def apply_targetgroup_def apply_subtree_def)

lemma groupdn_rule_text:
  "groupdn_rule dn = ''groupdn = '' @ [CHR 0x22] @ ''ldap:///'' @ dn @ [CHR 0x22]"
  by (simp add: groupdn_rule_def)

lemma apply_keep_bindrule:
  assumes "\<forall>a v. bindrule_expression (set_target_attr cls a v) = bindrule_expression a"
    and "\<forall>a v. bindrule_expression (set_target_filter cls a v) = bindrule_expression a"
    and "\<forall>a v. bindrule_expression (set_target cls a v) = bindrule_expression a"
  shows "bindrule_expression (apply_attrs cls k a) = bindrule_expression a"
    and "apply_memberof cls d k a = Inr a' \<Longrightarrow> bindrule_expression a' = bindrule_expression a"
    and "bindrule_expression (apply_filter cls k a) = bindrule_expression a"
    and "apply_type cls e k a = Inr a' \<Longrightarrow> bindrule_expression a' = bindrule_expression a"
    and "apply_targetgroup cls d k a = Inr a' \<Longrightarrow> bindrule_expression a' = bindrule_expression a"
    and "bindrule_expression (apply_subtree cls k a) = bindrule_expression a"
  using assms
  by (auto simp: apply_attrs_def apply_memberof_def apply_filter_def apply_type_def
      apply_targetgroup_def apply_subtree_def split: option.splits sum.splits)

lemma make_aci_body_bindrule:
  assumes "\<forall>a. bindrule_expression (set_bindrule cls a (groupdn_rule dn)) = ''ldap:///'' @ dn"
    and "\<forall>a v. bindrule_expression (set_target_attr cls a v) = bindrule_expression a"
    and "\<forall>a v. bindrule_expression (set_target_filter cls a v) = bindrule_expression a"
    and "\<forall>a v. bindrule_expression (set_target cls a v) = bindrule_expression a"
    and "make_aci_body cls e d None aciname k dn = Inr a"
  shows "bindrule_expression a = ''ldap:///'' @ dn"
proof -
  note keep = apply_keep_bindrule [OF assms(2-4)]
  from assms(5) obtain ps a1 a2 a3 where
    "kw_permissions k = Some ps"
    and 1: "apply_memberof cls d k (apply_attrs cls k
        (set_bindrule cls ((blank cls)\<lparr>name := aciname, permissions := ps\<rparr>) (groupdn_rule dn))) = Inr a1"
    and 2: "apply_type cls e k (apply_filter cls k a1) = Inr a2"
    and 3: "apply_targetgroup cls d k a2 = Inr a3"
    and 4: "a = apply_subtree cls k a3"
    by (auto simp: make_aci_body_def ACI_def ebind_def split: option.splits sum.splits)
  have "bindrule_expression a = bindrule_expression a3" by (simp add: 4 keep(6))
  also have "\<dots> = bindrule_expression a2" by (rule keep(5) [OF 3])
  also have "\<dots> = bindrule_expression (apply_filter cls k a1)" by (rule keep(4) [OF 2])
  also have "\<dots> = bindrule_expression a1" by (rule keep(3))
  also have "\<dots> = bindrule_expression (apply_attrs cls k
        (set_bindrule cls ((blank cls)\<lparr>name := aciname, permissions := ps\<rparr>) (groupdn_rule dn)))"
    by (rule keep(2) [OF 1])
  also have "\<dots> = ''ldap:///'' @ dn"
    using assms(1) by (simp add: keep(1))
  finally show ?thesis .
qed

lemma make_aci_body_text:
  assumes "kw_permissions k = Some ps" and "groups d' = groups d"
  shows "make_aci_body cls e d' None aciname k dn =
     ebind (apply_memberof cls d k (apply_attrs cls k
              (set_bindrule cls ((blank cls)\<lparr>name := aciname, permissions := ps\<rparr>)
                 (''groupdn = '' @ [CHR 0x22] @ ''ldap:///'' @ dn @ [CHR 0x22]))))
       (\<lambda>a. ebind (apply_type cls e k (apply_filter cls k a))
       (\<lambda>a. ebind (apply_targetgroup cls d k a)
       (\<lambda>a. Inr (apply_subtree cls k a))))"
proof -
  have "make_aci_body cls e d' None aciname k dn = make_aci_body cls e d None aciname k dn"
    by (rule make_aci_body_groups [OF assms(2)])
  then show ?thesis
    using assms(1)
    by (simp add: make_aci_body_def ACI_def ebind_def [of "Inr x" for x] groupdn_rule_text)
qed

lemma sample_cls_rule_laws:
  "bindrule_expression (set_bindrule sample_cls_rule a
     (''groupdn = '' @ [CHR 0x22] @ ''ldap:///'' @ dn @ [CHR 0x22])) = ''ldap:///'' @ dn"
  "bindrule_expression (set_target_attr sample_cls_rule a w) = bindrule_expression a"
  "bindrule_expression (set_target_filter sample_cls_rule a v) = bindrule_expression a"
  "bindrule_expression (set_target sample_cls_rule a v) = bindrule_expression a"
  by (simp_all add: sample_cls_rule_def sample_cls_def butlast_append)

lemma sample_lookups:
  "taskgroup2_show sample_directory ''newtg'' = Inl NotFound"
  "taskgroup2_show sample_directory ''g1'' = Inr ''cn=g1,cn=taskgroups,dc=example''"
  "group2_show sample_directory ''nobody'' = Inl NotFound"
  "group2_show sample_directory ''m1'' = Inr ''cn=m1,cn=groups,dc=example''"
  "taskgroup_dn sample_env ''newtg'' = ''cn=newtg,cn=taskgroups,dc=example''"
  by (simp_all add: taskgroup2_show_def group2_show_def sample_directory_def sample_env_def)

lemma plain_kw_fields:
  "kw_taskgroup plain_kw = Some ''newtg''" "kw_permissions plain_kw = Some [''read'']"
  "kw_attrs plain_kw = None" "kw_memberof plain_kw = None" "kw_filter plain_kw = None"
  "kw_type plain_kw = None" "kw_targetgroup plain_kw = None" "kw_subtree plain_kw = None"
  by (simp_all add: plain_kw_def no_kw_def)

text \<open>
  Claim C5, as the code has it. For a request that names a task-group and permissions:
  when the lookup of the task-group raises NotFound, \<^verbatim>\<open>_make_aci\<close> creates a task-group
  under the name the request gives (\<^verbatim>\<open>kw['taskgroup']\<close>, not the name of the ACI), with
  the name of the ACI as its description; the new task-group resolves afterwards, and
  \<^verbatim>\<open>set_bindrule\<close> is called with the text \<^verbatim>\<open>groupdn = "ldap:///DN"\<close> for the DN of
  the new task-group, on the blank ACI that has the name and the permissions, before any
  target qualifier is applied. For a class whose \<^verbatim>\<open>set_bindrule\<close> reads that text as the
  expression \<^verbatim>\<open>ldap:///DN\<close> and whose target setters leave the bind rule alone, every
  ACI that is built has that expression. When the task-group exists nothing is created.
  When the \<^verbatim>\<open>memberof\<close> group is not found, or the \<^verbatim>\<open>targetgroup\<close> group is not found
  (the type, if any, being one of user, group, host), \<^verbatim>\<open>_make_aci\<close> raises NotFound and
  no group is created.
\<close>

theorem make_aci_taskgroup_on_demand:
  assumes "kw_taskgroup k = Some tg" and "kw_permissions k = Some ps"
  shows
    "(taskgroup2_show d tg = Inl NotFound \<longrightarrow>
        snd (make_aci cls e d None aciname k) =
          d\<lparr>taskgroups := (taskgroups d)(tg \<mapsto> (taskgroup_dn e tg, aciname))\<rparr> \<and>
        taskgroup2_show
          (d\<lparr>taskgroups := (taskgroups d)(tg \<mapsto> (taskgroup_dn e tg, aciname))\<rparr>) tg =
          Inr (taskgroup_dn e tg) \<and>
        fst (make_aci cls e d None aciname k) =
          ebind (apply_memberof cls d k (apply_attrs cls k
                   (set_bindrule cls ((blank cls)\<lparr>name := aciname, permissions := ps\<rparr>)
                      (''groupdn = '' @ [CHR 0x22] @ ''ldap:///'' @ taskgroup_dn e tg @
                       [CHR 0x22]))))
            (\<lambda>a. ebind (apply_type cls e k (apply_filter cls k a))
            (\<lambda>a. ebind (apply_targetgroup cls d k a)
            (\<lambda>a. Inr (apply_subtree cls k a)))) \<and>
        (kw_attrs k = None \<and> kw_memberof k = None \<and> kw_filter k = None \<and> kw_type k = None \<and>
         kw_targetgroup k = None \<and> kw_subtree k = None \<longrightarrow>
           fst (make_aci cls e d None aciname k) =
             Inr (set_bindrule cls ((blank cls)\<lparr>name := aciname, permissions := ps\<rparr>)
                    (''groupdn = '' @ [CHR 0x22] @ ''ldap:///'' @ taskgroup_dn e tg @
                     [CHR 0x22]))) \<and>
        ((\<forall>a. bindrule_expression (set_bindrule cls a
               (''groupdn = '' @ [CHR 0x22] @ ''ldap:///'' @ taskgroup_dn e tg @ [CHR 0x22])) =
             ''ldap:///'' @ taskgroup_dn e tg) \<and>
         (\<forall>a v. bindrule_expression (set_target_attr cls a v) = bindrule_expression a) \<and>
         (\<forall>a v. bindrule_expression (set_target_filter cls a v) = bindrule_expression a) \<and>
         (\<forall>a v. bindrule_expression (set_target cls a v) = bindrule_expression a) \<longrightarrow>
           (\<forall>a. fst (make_aci cls e d None aciname k) = Inr a \<longrightarrow>
              bindrule_expression a = ''ldap:///'' @ taskgroup_dn e tg))) \<and>
     (taskgroup2_show d tg = Inr dn \<longrightarrow> snd (make_aci cls e d None aciname k) = d) \<and>
     (kw_memberof k = Some m \<and> group2_show d m = Inl NotFound \<longrightarrow>
        fst (make_aci cls e d None aciname k) = Inl NotFound \<and>
        groups (snd (make_aci cls e d None aciname k)) = groups d) \<and>
     (kw_targetgroup k = Some g \<and> group2_show d g = Inl NotFound \<and>
      (\<forall>t. kw_type k = Some t \<longrightarrow> t \<in> set [''user'', ''group'', ''host'']) \<longrightarrow>
        fst (make_aci cls e d None aciname k) = Inl NotFound \<and>
        groups (snd (make_aci cls e d None aciname k)) = groups d)"
proof (intro conjI impI)
  let ?d' = "d\<lparr>taskgroups := (taskgroups d)(tg \<mapsto> (taskgroup_dn e tg, aciname))\<rparr>"
  let ?rule = "''groupdn = '' @ [CHR 0x22] @ ''ldap:///'' @ taskgroup_dn e tg @ [CHR 0x22]"
  {
    assume nf: "taskgroup2_show d tg = Inl NotFound"
    then have m: "make_aci cls e d None aciname k =
        (make_aci_body cls e ?d' None aciname k (taskgroup_dn e tg), ?d')"
      by (simp add: make_aci_fst [OF assms(1)])
    show "snd (make_aci cls e d None aciname k) = ?d'"
      by (simp add: m)
    show "taskgroup2_show ?d' tg = Inr (taskgroup_dn e tg)"
      by (simp add: taskgroup2_show_def)
    show "fst (make_aci cls e d None aciname k) =
        ebind (apply_memberof cls d k (apply_attrs cls k
                 (set_bindrule cls ((blank cls)\<lparr>name := aciname, permissions := ps\<rparr>) ?rule)))
          (\<lambda>a. ebind (apply_type cls e k (apply_filter cls k a))
          (\<lambda>a. ebind (apply_targetgroup cls d k a)
          (\<lambda>a. Inr (apply_subtree cls k a))))"
      by (simp only: m fst_conv) (rule make_aci_body_text [OF assms(2)], simp)
    {
      assume "kw_attrs k = None \<and> kw_memberof k = None \<and> kw_filter k = None \<and> kw_type k = None \<and>
         kw_targetgroup k = None \<and> kw_subtree k = None"
      then show "fst (make_aci cls e d None aciname k) =
          Inr (set_bindrule cls ((blank cls)\<lparr>name := aciname, permissions := ps\<rparr>) ?rule)"
        by (simp add: m make_aci_body_plain [OF assms(2)] groupdn_rule_text)
    }
    {
      assume laws: "(\<forall>a. bindrule_expression (set_bindrule cls a ?rule) =
             ''ldap:///'' @ taskgroup_dn e tg) \<and>
         (\<forall>a v. bindrule_expression (set_target_attr cls a v) = bindrule_expression a) \<and>
         (\<forall>a v. bindrule_expression (set_target_filter cls a v) = bindrule_expression a) \<and>
         (\<forall>a v. bindrule_expression (set_target cls a v) = bindrule_expression a)"
      show "\<forall>a. fst (make_aci cls e d None aciname k) = Inr a \<longrightarrow>
              bindrule_expression a = ''ldap:///'' @ taskgroup_dn e tg"
      proof (intro allI impI)
        fix a
        assume "fst (make_aci cls e d None aciname k) = Inr a"
        then have "make_aci_body cls e ?d' None aciname k (taskgroup_dn e tg) = Inr a"
          by (simp add: m)
        moreover have "\<forall>a. bindrule_expression (set_bindrule cls a
            (groupdn_rule (taskgroup_dn e tg))) = ''ldap:///'' @ taskgroup_dn e tg"
          using laws by (simp add: groupdn_rule_text)
        moreover have
          "\<forall>a v. bindrule_expression (set_target_attr cls a v) = bindrule_expression a"
          "\<forall>a v. bindrule_expression (set_target_filter cls a v) = bindrule_expression a"
          "\<forall>a v. bindrule_expression (set_target cls a v) = bindrule_expression a"
          using laws by blast+
        ultimately show "bindrule_expression a = ''ldap:///'' @ taskgroup_dn e tg"
          by (rule make_aci_body_bindrule [rotated 4])
      qed
    }
  }
  {
    assume "taskgroup2_show d tg = Inr dn"
    then show "snd (make_aci cls e d None aciname k) = d"
      by (simp add: make_aci_fst [OF assms(1)])
  }
  have body: "fst (make_aci cls e d None aciname k) =
      make_aci_body cls e d None aciname k
        (case taskgroup2_show d tg of Inl err \<Rightarrow> taskgroup_dn e tg | Inr dn \<Rightarrow> dn)"
    by (cases "taskgroup2_show d tg")
       (simp_all add: make_aci_fst [OF assms(1)] make_aci_body_groups [of "d\<lparr>taskgroups := x\<rparr>" d for x])
  {
    assume "kw_memberof k = Some m \<and> group2_show d m = Inl NotFound"
    then show "fst (make_aci cls e d None aciname k) = Inl NotFound"
      by (simp add: body make_aci_body_memberof_notfound [OF assms(2)])
  }
  {
    assume "kw_targetgroup k = Some g \<and> group2_show d g = Inl NotFound \<and>
      (\<forall>t. kw_type k = Some t \<longrightarrow> t \<in> set [''user'', ''group'', ''host''])"
    then show "fst (make_aci cls e d None aciname k) = Inl NotFound"
      using make_aci_body_targetgroup_notfound [OF assms(2), of g d] by (simp add: body)
  }
  show "groups (snd (make_aci cls e d None aciname k)) = groups d"
    "groups (snd (make_aci cls e d None aciname k)) = groups d"
    by (rule make_aci_groups)+
qed

theorem make_aci_taskgroup_on_demand_witness:
  "taskgroup2_show sample_directory ''newtg'' = Inl NotFound \<and>
   snd (make_aci sample_cls_rule sample_env sample_directory None ''a3'' plain_kw) =
     sample_directory\<lparr>taskgroups := (taskgroups sample_directory)
       (''newtg'' \<mapsto> (''cn=newtg,cn=taskgroups,dc=example'', ''a3''))\<rparr> \<and>
   fst (make_aci sample_cls_rule sample_env sample_directory None ''a3'' plain_kw) =
     Inr ((blank sample_cls_rule)\<lparr>name := ''a3'', permissions := [''read''],
            bindrule_expression := ''ldap:///cn=newtg,cn=taskgroups,dc=example''\<rparr>) \<and>
   fst (make_aci sample_cls_rule sample_env sample_directory None ''a3'' qualified_kw) =
     Inr ((blank sample_cls_rule)\<lparr>name := ''a3'', permissions := [''read''],
            bindrule_expression := ''ldap:///cn=newtg,cn=taskgroups,dc=example'',
            target_target := Some ''ldap:///dc=example'',
            target_targetattr := Some [''cn''],
            target_targetfilter := Some ''memberOf=cn=m1,cn=groups,dc=example''\<rparr>) \<and>
   (\<forall>a. bindrule_expression (set_bindrule sample_cls_rule a
      (''groupdn = '' @ [CHR 0x22] @ ''ldap:///'' @ taskgroup_dn sample_env ''newtg'' @
       [CHR 0x22])) = ''ldap:///'' @ taskgroup_dn sample_env ''newtg'') \<and>
   (\<forall>a v. bindrule_expression (set_target_attr sample_cls_rule a v) = bindrule_expression a) \<and>
   (\<forall>a v. bindrule_expression (set_target_filter sample_cls_rule a v) =
      bindrule_expression a) \<and>
   (\<forall>a v. bindrule_expression (set_target sample_cls_rule a v) = bindrule_expression a) \<and>
   (case fst (make_aci sample_cls_rule sample_env sample_directory None ''a3'' qualified_kw) of
      Inl err \<Rightarrow> False
    | Inr a \<Rightarrow> bindrule_expression a = ''ldap:///cn=newtg,cn=taskgroups,dc=example'') \<and>
   snd (make_aci sample_cls_rule sample_env sample_directory None ''a3''
     (plain_kw\<lparr>kw_taskgroup := Some ''g1''\<rparr>)) = sample_directory \<and>
   group2_show sample_directory ''nobody'' = Inl NotFound \<and>
   fst (make_aci sample_cls_rule sample_env sample_directory None ''a3''
     (plain_kw\<lparr>kw_memberof := Some ''nobody''\<rparr>)) = Inl NotFound \<and>
   fst (make_aci sample_cls_rule sample_env sample_directory None ''a3''
     (plain_kw\<lparr>kw_targetgroup := Some ''nobody''\<rparr>)) = Inl NotFound"
proof -
  note k = plain_kw_fields
  note s = sample_lookups
  have q: "kw_taskgroup qualified_kw = Some ''newtg''" "kw_permissions qualified_kw = Some [''read'']"
    "kw_attrs qualified_kw = Some [''cn'']" "kw_memberof qualified_kw = Some ''m1''"
    "kw_filter qualified_kw = None" "kw_type qualified_kw = None"
    "kw_targetgroup qualified_kw = None" "kw_subtree qualified_kw = Some ''dc=example''"
    by (simp_all add: qualified_kw_def k)
  have sw: "\<not> startswith ''dc=example'' ''ldap:///''"
    by (simp add: startswith_def)
  have setters: "set_bindrule sample_cls_rule a v = a\<lparr>bindrule_expression := butlast (drop 11 v)\<rparr>"
    "set_target_attr sample_cls_rule a w = a\<lparr>target_targetattr := Some w\<rparr>"
    "set_target_filter sample_cls_rule a v = a\<lparr>target_targetfilter := Some v\<rparr>"
    "set_target sample_cls_rule a v = a\<lparr>target_target := Some v\<rparr>" for a v w
    by (simp_all add: sample_cls_rule_def sample_cls_def)
  note t1 = make_aci_taskgroup_on_demand [where k = plain_kw and tg = "''newtg''"
      and ps = "[''read'']" and d = sample_directory and cls = sample_cls_rule and e = sample_env
      and aciname = "''a3''", OF k(1,2), THEN conjunct1, rule_format, OF s(1)]
  have 1: "snd (make_aci sample_cls_rule sample_env sample_directory None ''a3'' plain_kw) =
     sample_directory\<lparr>taskgroups := (taskgroups sample_directory)
       (''newtg'' \<mapsto> (''cn=newtg,cn=taskgroups,dc=example'', ''a3''))\<rparr>"
    using t1 [THEN conjunct1] by (simp add: s)
  have 2: "fst (make_aci sample_cls_rule sample_env sample_directory None ''a3'' plain_kw) =
     Inr ((blank sample_cls_rule)\<lparr>name := ''a3'', permissions := [''read''],
            bindrule_expression := ''ldap:///cn=newtg,cn=taskgroups,dc=example''\<rparr>)"
    using t1 [THEN conjunct2, THEN conjunct2, THEN conjunct2, THEN conjunct1] k
    by (simp add: s setters)
  note t2 = make_aci_taskgroup_on_demand [where k = qualified_kw and tg = "''newtg''"
      and ps = "[''read'']" and d = sample_directory and cls = sample_cls_rule and e = sample_env
      and aciname = "''a3''", OF q(1,2), THEN conjunct1, rule_format, OF s(1)]
  have 3: "fst (make_aci sample_cls_rule sample_env sample_directory None ''a3'' qualified_kw) =
     Inr ((blank sample_cls_rule)\<lparr>name := ''a3'', permissions := [''read''],
            bindrule_expression := ''ldap:///cn=newtg,cn=taskgroups,dc=example'',
            target_target := Some ''ldap:///dc=example'',
            target_targetattr := Some [''cn''],
            target_targetfilter := Some ''memberOf=cn=m1,cn=groups,dc=example''\<rparr>)"
    using t2 [THEN conjunct2, THEN conjunct2, THEN conjunct1]
    by (simp add: s q sw setters ebind_def apply_attrs_def apply_memberof_def apply_filter_def
        apply_type_def apply_targetgroup_def apply_subtree_def)
  have laws:
    "\<forall>a. bindrule_expression (set_bindrule sample_cls_rule a
      (''groupdn = '' @ [CHR 0x22] @ ''ldap:///'' @ taskgroup_dn sample_env ''newtg'' @
       [CHR 0x22])) = ''ldap:///'' @ taskgroup_dn sample_env ''newtg''"
    "\<forall>a v. bindrule_expression (set_target_attr sample_cls_rule a v) = bindrule_expression a"
    "\<forall>a v. bindrule_expression (set_target_filter sample_cls_rule a v) = bindrule_expression a"
    "\<forall>a v. bindrule_expression (set_target sample_cls_rule a v) = bindrule_expression a"
    using sample_cls_rule_laws by blast+
  obtain a where a: "fst (make_aci sample_cls_rule sample_env sample_directory None ''a3''
      qualified_kw) = Inr a"
    using 3 by blast
  have "bindrule_expression a = ''ldap:///'' @ taskgroup_dn sample_env ''newtg''"
    using t2 [THEN conjunct2, THEN conjunct2, THEN conjunct2, THEN conjunct2] laws a by blast
  then have 7: "(case fst (make_aci sample_cls_rule sample_env sample_directory None ''a3''
        qualified_kw) of
      Inl err \<Rightarrow> False
    | Inr a \<Rightarrow> bindrule_expression a = ''ldap:///cn=newtg,cn=taskgroups,dc=example'')"
    by (simp add: a s)
  have 4: "snd (make_aci sample_cls_rule sample_env sample_directory None ''a3''
     (plain_kw\<lparr>kw_taskgroup := Some ''g1''\<rparr>)) = sample_directory"
    using make_aci_taskgroup_on_demand [where k = "plain_kw\<lparr>kw_taskgroup := Some ''g1''\<rparr>"
        and tg = "''g1''" and ps = "[''read'']" and d = sample_directory and cls = sample_cls_rule
        and e = sample_env and aciname = "''a3''" and dn = "''cn=g1,cn=taskgroups,dc=example''",
        THEN conjunct2, THEN conjunct1]
    by (simp add: s k)
  have 5: "fst (make_aci sample_cls_rule sample_env sample_directory None ''a3''
     (plain_kw\<lparr>kw_memberof := Some ''nobody''\<rparr>)) = Inl NotFound"
    using make_aci_taskgroup_on_demand [where k = "plain_kw\<lparr>kw_memberof := Some ''nobody''\<rparr>"
        and tg = "''newtg''" and ps = "[''read'']" and d = sample_directory and cls = sample_cls_rule
        and e = sample_env and aciname = "''a3''" and m = "''nobody''",
        THEN conjunct2, THEN conjunct2, THEN conjunct1]
    by (simp add: s k)
  have 6: "fst (make_aci sample_cls_rule sample_env sample_directory None ''a3''
     (plain_kw\<lparr>kw_targetgroup := Some ''nobody''\<rparr>)) = Inl NotFound"
    using make_aci_taskgroup_on_demand [where k = "plain_kw\<lparr>kw_targetgroup := Some ''nobody''\<rparr>"
        and tg = "''newtg''" and ps = "[''read'']" and d = sample_directory and cls = sample_cls_rule
        and e = sample_env and aciname = "''a3''" and g = "''nobody''",
        THEN conjunct2, THEN conjunct2, THEN conjunct2]
    by (simp add: s k)
  show ?thesis using s(1,3) 1 2 3 4 5 6 7 laws by blast
qed

theorem make_aci_group_name_counterexample:
  "taskgroups (snd (make_aci sample_cls sample_env sample_directory None ''a3'' plain_kw))
     ''a3'' = None \<and>
   taskgroups (snd (make_aci sample_cls sample_env sample_directory None ''a3'' plain_kw))
     ''newtg'' = Some (''cn=newtg,cn=taskgroups,dc=example'', ''a3'')"
  by (simp add: make_aci_fst [OF plain_kw_fields(1)] sample_lookups)
     (simp add: sample_directory_def)

section \<open>Create\<close>

lemma aci2_create_execute_duplicate:
  assumes "kw_aciname k = None" and "use_ldap2 e"
    and "fst (make_aci cls e d None aciname k) = Inr newaci"
    and "list_ex (\<lambda>a. isequal cls a (Inr newaci))
           (List.map_filter (parse cls) (get_aci (base_entry d)))"
  shows "aci2_create_execute cls e d aciname k =
           (Inl DuplicateEntry, snd (make_aci cls e d None aciname k))"
  using assms make_aci_base_entry [of cls e d None aciname k]
  by (cases "make_aci cls e d None aciname k")
     (simp add: aci2_create_execute_def convert_strings_to_acis_eq get_aci_get_entry)

text \<open>
  Claim C1. The duplicate half holds (\<open>aci2_create_execute_duplicate\<close>). The other half
  does not: \<^verbatim>\<open>aci2_create.execute\<close> reads the stored strings under the key \<^verbatim>\<open>aci\<close> and
  appends the new one under the key \<^verbatim>\<open>acis\<close>, which the entry it fetched does not have.
  For every request that is built and is no duplicate the command raises KeyError, and
  the \<^verbatim>\<open>aci\<close> attribute stays as it was.
\<close>

theorem aci2_create_execute_keyerror:
  assumes "kw_aciname k = None" and "use_ldap2 e"
    and "fst (make_aci cls e d None aciname k) = Inr newaci"
    and "\<not> list_ex (\<lambda>a. isequal cls a (Inr newaci))
             (List.map_filter (parse cls) (get_aci (base_entry d)))"
  shows "aci2_create_execute cls e d aciname k =
           (Inl KeyError, snd (make_aci cls e d None aciname k)) \<and>
         base_entry (snd (make_aci cls e d None aciname k)) = base_entry d"
  using assms make_aci_base_entry [of cls e d None aciname k]
  by (cases "make_aci cls e d None aciname k")
     (simp add: aci2_create_execute_def convert_strings_to_acis_eq get_aci_get_entry
        get_entry_acis)

theorem aci2_create_execute_keyerror_witness:
  "kw_aciname new_kw = None \<and> use_ldap2 sample_env \<and>
   aci2_create_execute sample_cls sample_env sample_directory ''a3'' new_kw =
     (Inl KeyError, sample_directory) \<and>
   aci2_create_execute sample_cls sample_env (sample_directory\<lparr>base_entry := Map.empty\<rparr>)
     ''a3'' new_kw = (Inl KeyError, sample_directory\<lparr>base_entry := Map.empty\<rparr>)"
proof -
  let ?a = "(blank sample_cls)\<lparr>name := ''a3'', permissions := [''read''],
      bindrule_expression := groupdn_rule ''cn=g1,cn=taskgroups,dc=example''\<rparr>"
  have k: "kw_aciname new_kw = None" "kw_taskgroup new_kw = Some ''g1''"
    "kw_permissions new_kw = Some [''read'']"
    "kw_attrs new_kw = None" "kw_memberof new_kw = None" "kw_filter new_kw = None"
    "kw_type new_kw = None" "kw_targetgroup new_kw = None" "kw_subtree new_kw = None"
    by (simp_all add: new_kw_def no_kw_def)
  have m: "make_aci sample_cls sample_env d None ''a3'' new_kw = (Inr ?a, d)"
    if "taskgroups d = taskgroups sample_directory" for d
    using that
    by (simp add: make_aci_fst [OF k(2)] taskgroup2_show_def sample_directory_def
        make_aci_body_plain [OF k(3-9)] sample_cls_def)
  have l: "lower ''a3'' = ''a3''" by code_simp
  have nd: "\<not> list_ex (\<lambda>a. isequal sample_cls a (Inr ?a)) [aci_admin, aci_helpdesk]"
    by (simp add: sample_cls_def sample_equal_def aci_admin_def aci_helpdesk_def sample_lower l)
  have e: "List.map_filter (parse sample_cls)
      (get_aci (base_entry (sample_directory\<lparr>base_entry := Map.empty\<rparr>))) = []"
    by (simp add: get_aci_def List.map_filter_simps)
  show ?thesis
    using aci2_create_execute_keyerror [OF k(1) sample_flags(1), of sample_cls sample_directory
        "''a3''" ?a, unfolded sample_decoded]
      aci2_create_execute_keyerror [OF k(1) sample_flags(1), of sample_cls
        "sample_directory\<lparr>base_entry := Map.empty\<rparr>" "''a3''" ?a, unfolded e]
      nd
    by (simp add: m k sample_flags)
qed

section \<open>Modify\<close>

lemma mod_merge_found:
  assumes "use_ldap2 e"
    and "List.find (\<lambda>a. lower (name a) = lower aciname)
           (List.map_filter (parse cls) (get_aci (base_entry d))) = Some found"
  shows "mod_merge cls e d aciname k =
     (case target_targetattr found of
        None \<Rightarrow> Inl KeyError
      | Some ta \<Rightarrow>
          ebind
            (if kw_type k = None \<and> kw_targetgroup k = None \<and> kw_subtree k = None
             then (case target_target found of
                     None \<Rightarrow> Inl KeyError
                   | Some t \<Rightarrow> Inr (k\<lparr>kw_aciname := setdefault (kw_aciname k) (name found),
                       kw_taskgroup := setdefault (kw_taskgroup k) (bindrule_expression found),
                       kw_permissions := setdefault (kw_permissions k) (permissions found),
                       kw_attrs := setdefault (kw_attrs k) ta, kw_subtree := Some t\<rparr>))
             else Inr (k\<lparr>kw_aciname := setdefault (kw_aciname k) (name found),
                       kw_taskgroup := setdefault (kw_taskgroup k) (bindrule_expression found),
                       kw_permissions := setdefault (kw_permissions k) (permissions found),
                       kw_attrs := setdefault (kw_attrs k) ta\<rparr>))
            (\<lambda>k3. if kw_memberof k = None \<and> kw_filter k = None
                  then (case target_targetfilter found of
                          None \<Rightarrow> Inl KeyError
                        | Some f \<Rightarrow> Inr (k3\<lparr>kw_filter := Some f\<rparr>))
                  else Inr k3))"
proof (cases "target_targetattr found")
  case None
  then show ?thesis
    using assms
    by (simp add: mod_merge_def convert_strings_to_acis_eq get_aci_get_entry find_aci_by_name_eq
        ebind_def Let_def)
next
  case (Some ta)
  show ?thesis
  proof (cases "kw_type k = None \<and> kw_targetgroup k = None \<and> kw_subtree k = None")
    case True
    show ?thesis
    proof (cases "target_target found")
      case None
      then show ?thesis
        using assms Some True
        by (simp add: mod_merge_def convert_strings_to_acis_eq get_aci_get_entry
            find_aci_by_name_eq ebind_def Let_def)
    next
      case (Some t)
      then show ?thesis
        using assms \<open>target_targetattr found = Some ta\<close> True
        by (simp add: mod_merge_def convert_strings_to_acis_eq get_aci_get_entry
            find_aci_by_name_eq ebind_def Let_def)
    qed
  next
    case False
    then have F: "(kw_type k = None \<and> kw_targetgroup k = None \<and> kw_subtree k = None) = False"
      by simp
    show ?thesis
      using assms Some
      by (simp add: mod_merge_def convert_strings_to_acis_eq get_aci_get_entry
          find_aci_by_name_eq ebind_def Let_def F del: not_None_eq)
  qed
qed

lemma aci2_mod_execute_merged:
  assumes "mod_merge cls e d aciname k = Inr k'"
  shows "aci2_mod_execute cls e c d aciname k =
     (case cmd_aci2_delete c d aciname of
        (Inl err, d') \<Rightarrow> (Inl err, d')
      | (Inr ok, d') \<Rightarrow> cmd_aci2_create c d' aciname k')"
  using assms by (simp add: aci2_mod_execute_def)

text \<open>
  Claim C4. When the existing ACI has the three target clauses, \<^verbatim>\<open>aci2_mod.execute\<close>
  completes the request as the claim says and calls delete, then create
  (\<open>mod_merge_found\<close>, \<open>aci2_mod_execute_merged\<close>). It does not for every existing ACI:
  the defaults are read with \<^verbatim>\<open>aci.target[...]['expression']\<close> before \<^verbatim>\<open>setdefault\<close>
  looks at the request, so an ACI without \<^verbatim>\<open>targetattr\<close> makes the command raise
  KeyError whatever the request supplies, and so does a missing \<^verbatim>\<open>target\<close> when none of
  type, targetgroup, subtree is given, and a missing \<^verbatim>\<open>targetfilter\<close> when neither
  memberof nor filter is given. Nothing is deleted and nothing is created then.
\<close>

theorem aci2_mod_execute_keyerror:
  assumes "use_ldap2 e"
    and "List.find (\<lambda>a. lower (name a) = lower aciname)
           (List.map_filter (parse cls) (get_aci (base_entry d))) = Some found"
    and "target_targetattr found = None \<or>
         (kw_type k = None \<and> kw_targetgroup k = None \<and> kw_subtree k = None \<and>
          target_target found = None) \<or>
         (kw_memberof k = None \<and> kw_filter k = None \<and> target_targetfilter found = None)"
  shows "aci2_mod_execute cls e c d aciname k = (Inl KeyError, d)"
proof -
  have "mod_merge cls e d aciname k = Inl KeyError"
  proof (cases "target_targetattr found")
    case None
    then show ?thesis by (simp add: mod_merge_found [OF assms(1,2)])
  next
    case (Some ta)
    from assms(3) Some consider
      (target) "kw_type k = None \<and> kw_targetgroup k = None \<and> kw_subtree k = None \<and>
          target_target found = None"
      | (filter) "kw_memberof k = None \<and> kw_filter k = None \<and> target_targetfilter found = None"
      by auto
    then show ?thesis
    proof cases
      case target
      then show ?thesis
        by (simp add: mod_merge_found [OF assms(1,2)] Some ebind_def)
    next
      case filter
      then show ?thesis
        by (simp add: mod_merge_found [OF assms(1,2)] Some ebind_def split: sum.splits option.splits)
    qed
  qed
  then show ?thesis by (simp add: aci2_mod_execute_def)
qed

theorem aci2_mod_execute_keyerror_witness:
  "use_ldap2 sample_env \<and>
   List.find (\<lambda>a. lower (name a) = lower ''admin'')
     (List.map_filter (parse sample_cls) (get_aci (base_entry sample_directory))) =
     Some aci_admin \<and>
   target_targetattr aci_admin = None \<and>
   aci2_mod_execute sample_cls sample_env sample_commands sample_directory ''admin'' full_kw =
     (Inl KeyError, sample_directory) \<and>
   aci2_mod_execute sample_cls sample_env sample_commands sample_directory ''admin'' no_kw =
     (Inl KeyError, sample_directory)"
proof -
  have f: "List.find (\<lambda>a. lower (name a) = lower ''admin'')
      (List.map_filter (parse sample_cls) (get_aci (base_entry sample_directory))) =
      Some aci_admin"
    by (simp add: sample_decoded) (simp add: aci_admin_def sample_lower)
  have t: "target_targetattr aci_admin = None"
    by (simp add: aci_admin_def)
  show ?thesis
    using aci2_mod_execute_keyerror [OF sample_flags(1) f, of full_kw sample_commands]
      aci2_mod_execute_keyerror [OF sample_flags(1) f, of no_kw sample_commands]
    by (simp add: sample_flags f t)
qed

end
